theory Spec2Isabelle
  imports Main "HOL-Library.Sublist"
begin

section \<open>JSON values and failures\<close>

text \<open>
  A parsed JSON document. Numbers are kept as integers: the converter never computes with
  a number, it only tells numbers from strings, arrays and objects. An object is the list
  of its entries in document order, with pairwise distinct keys; a property read is
  \<open>map_of\<close>, and only own properties are modelled (a key such as \<open>__proto__\<close>, which
  JavaScript finds on the prototype of every object, is outside the model).
  A JavaScript value that may be \<open>undefined\<close> is a \<open>json option\<close>, with \<open>None\<close> for
  \<open>undefined\<close>.
\<close>

datatype json =
    JNull
  | JBool bool
  | JNum int
  | JStr string
  | JArr "json list"
  | JObj "(string \<times> json) list"

type_synonym StringMap = "(string \<times> json) list"

text \<open>
  A message is the text of a template literal: literal text, and interpolated values
  \<open>${v}\<close> that are kept as values (their JavaScript string form is not modelled).
\<close>

datatype msg_part = Txt string | Val "json option"

text \<open>
  \<open>Panic\<close> is \<open>panic(message)\<close> and a failed \<open>assert(condition, message)\<close>, both with
  the message of the source. \<open>TypeError\<close> is the exception the JavaScript runtime throws
  on a property read of \<open>null\<close> or \<open>undefined\<close> and on a call of something that is not a
  function. \<open>NotAStringMap\<close> is the failure of \<open>checkStringMap\<close>.
\<close>

datatype error =
    Panic "msg_part list"
  | TypeError
  | NotAStringMap "json option"

text \<open>
  Modelled from the spec: \<open>checkStringMap\<close> is imported from \<open>./Support\<close>, which is not
  part of the sources at hand. The spec (4.2, 7) has every place that needs an object fail
  on a value that is absent or not an object (a keyed mapping), and go on with the object
  otherwise.
\<close>

definition checkStringMap :: "json option \<Rightarrow> error + StringMap" where
  "checkStringMap x = (case x of Some (JObj m) \<Rightarrow> Inr m | _ \<Rightarrow> Inl (NotAStringMap x))"

definition field :: "StringMap \<Rightarrow> string \<Rightarrow> json option" where
  "field m k = map_of m k"

section \<open>Path elements and references\<close>

datatype PathElementKind =
    RootKind
  | DefinitionKind
  | OneOfKind
  | AnyOfKind
  | AllOfKind
  | PropertyKind
  | AdditionalPropertyKind
  | ItemsKind
  | TypeKind
  | ObjectKind
  | KeyOrIndexKind

text \<open>
  The \<open>key\<close> of a \<open>KeyOrIndex\<close> element is declared a string. \<open>makeTypesFromCases\<close>
  passes the object \<open>{ kind, index }\<close> to \<open>push\<close> through a cast to \<open>any\<close>, so a key is
  either a string or such an object.
\<close>

datatype key = Key string | CaseKey PathElementKind nat

datatype PathElement =
    Root
  | Definition string
  | Type nat
  | Object
  | KeyOrIndex key

datatype Ref = Ref (address: string) (ref_path: "PathElement list")

definition Ref_root :: "string \<Rightarrow> Ref" where
  "Ref_root source = Ref source [Root]"

text \<open>\<open>String.prototype.split\<close> with a one-character separator: never an empty list.\<close>

fun js_split :: "char \<Rightarrow> string \<Rightarrow> string list" where
  "js_split sep [] = [[]]"
| "js_split sep (c # cs) =
     (if c = sep then [] # js_split sep cs
      else (case js_split sep cs of
              [] \<Rightarrow> [[c]]
            | p # ps \<Rightarrow> (c # p) # ps))"

text \<open>
  The loop of \<open>Ref.parse\<close> over \<open>parts\<close>, as a recursion on the parts from index \<open>i\<close> on:
  \<open>i + 1 < parts.length\<close> holds exactly when a part follows the current one.
\<close>

fun parseElements :: "string list \<Rightarrow> PathElement list" where
  "parseElements [] = []"
| "parseElements [p] = (if p = ''#'' then [Root] else [KeyOrIndex (Key p)])"
| "parseElements (p # q # ps) =
     (if p = ''#'' then Root # parseElements (q # ps)
      else if p = ''definitions'' then Definition q # parseElements ps
      else KeyOrIndex (Key p) # parseElements (q # ps))"

definition Ref_parse :: "string \<Rightarrow> json option \<Rightarrow> error + Ref" where
  "Ref_parse baseAddress r =
     (case r of
        Some (JStr s) \<Rightarrow> Inr (Ref baseAddress (parseElements (js_split CHR ''/'' s)))
      | _ \<Rightarrow> Inl (Panic [Txt ''$ref must be a string'']))"

definition pushElement :: "Ref \<Rightarrow> PathElement \<Rightarrow> Ref" where
  "pushElement r pe = Ref (address r) (ref_path r @ [pe])"

definition Ref_push :: "Ref \<Rightarrow> key list \<Rightarrow> Ref" where
  "Ref_push r keys = foldl (\<lambda>acc k. pushElement acc (KeyOrIndex k)) r keys"

definition Ref_pushDefinition :: "Ref \<Rightarrow> string \<Rightarrow> Ref" where
  "Ref_pushDefinition r n = pushElement r (Definition n)"

definition Ref_pushObject :: "Ref \<Rightarrow> Ref" where
  "Ref_pushObject r = pushElement r Object"

definition Ref_pushType :: "Ref \<Rightarrow> nat \<Rightarrow> Ref" where
  "Ref_pushType r i = pushElement r (Type i)"

text \<open>\<open>numberRegexp\<close> is \<open>^[0-9]+$\<close>: one digit or more, and nothing else.\<close>

definition is_digit :: "char \<Rightarrow> bool" where
  "is_digit c = (c \<in> set ''0123456789'')"

definition numberRegexp :: "string \<Rightarrow> bool" where
  "numberRegexp s = (s \<noteq> [] \<and> list_all is_digit s)"

text \<open>
  The loop of \<open>Ref.name\<close> reads the last element and pops it: a recursion on the reversed
  path. A key that is not a string has no \<open>match\<close> method.
\<close>

fun name_loop :: "PathElement list \<Rightarrow> error + string" where
  "name_loop [] = Inr ''Something''"
| "name_loop (Root # _) = Inr ''Root''"
| "name_loop (Definition n # _) = Inr n"
| "name_loop (KeyOrIndex (Key k) # rest) = (if numberRegexp k then Inr k else name_loop rest)"
| "name_loop (KeyOrIndex (CaseKey _ _) # _) = Inl TypeError"
| "name_loop (Type _ # _) =
     Inl (Panic [Txt ''We shouldn't try to get the name of Type or Object refs''])"
| "name_loop (Object # _) =
     Inl (Panic [Txt ''We shouldn't try to get the name of Type or Object refs''])"

definition Ref_name :: "Ref \<Rightarrow> error + string" where
  "Ref_name r = name_loop (rev (ref_path r))"

definition Ref_definitionName :: "Ref \<Rightarrow> string option" where
  "Ref_definitionName r =
     (case rev (ref_path r) of
        Definition n # _ \<Rightarrow> Some n
      | _ \<Rightarrow> None)"

text \<open>The decimal form of an index, \<open>index.toString()\<close>.\<close>

definition digit_char :: "nat \<Rightarrow> char" where
  "digit_char d = ''0123456789'' ! d"

fun show_nat :: "nat \<Rightarrow> string" where
  "show_nat n = (if n < 10 then [digit_char n] else show_nat (n div 10) @ [digit_char (n mod 10)])"

declare show_nat.simps [simp del]

text \<open>The string form of a key: a string is itself, an object is \<open>[object Object]\<close>.\<close>

definition key_string :: "key \<Rightarrow> string" where
  "key_string k = (case k of Key s \<Rightarrow> s | CaseKey _ _ \<Rightarrow> ''[object Object]'')"

definition elementToString :: "PathElement \<Rightarrow> string" where
  "elementToString e =
     (case e of
        Root \<Rightarrow> ''#''
      | Definition n \<Rightarrow> ''definitions/'' @ n
      | Type i \<Rightarrow> ''type/'' @ show_nat i
      | Object \<Rightarrow> ''object''
      | KeyOrIndex k \<Rightarrow> key_string k)"

fun js_join :: "string \<Rightarrow> string list \<Rightarrow> string" where
  "js_join sep [] = []"
| "js_join sep [x] = x"
| "js_join sep (x # y # ys) = x @ sep @ js_join sep (y # ys)"

definition Ref_toString :: "Ref \<Rightarrow> string" where
  "Ref_toString r = js_join ''/'' (map elementToString (ref_path r))"

text \<open>
  \<open>immutable\<close> is the path with every element turned into an immutable value, compared
  by value; the address is not part of it.
\<close>

definition Ref_immutable :: "Ref \<Rightarrow> PathElement list" where
  "Ref_immutable r = ref_path r"

section \<open>Resolving a reference\<close>

text \<open>
  \<open>parseInt(s, 10)\<close>: leading white space is skipped (the ASCII white space is modelled),
  then an optional sign, then the longest run of decimal digits; \<open>NaN\<close>, here \<open>None\<close>,
  when there is no digit. The value is exact here, where JavaScript rounds beyond
  \<open>2^53\<close>; both are far beyond the length of any array.
\<close>

definition is_space :: "char \<Rightarrow> bool" where
  "is_space c = (c \<in> set [CHR '' '', CHR 0x09, CHR 0x0A, CHR 0x0B, CHR 0x0C, CHR 0x0D])"

definition digit_val :: "char \<Rightarrow> nat" where
  "digit_val c = of_char c - 48"

definition digits_val :: "string \<Rightarrow> nat" where
  "digits_val ds = foldl (\<lambda>acc c. 10 * acc + digit_val c) 0 ds"

definition parseInt :: "string \<Rightarrow> int option" where
  "parseInt s =
     (let t = dropWhile is_space s;
          neg = (t \<noteq> [] \<and> hd t = CHR ''-'');
          u = (if t \<noteq> [] \<and> (hd t = CHR ''-'' \<or> hd t = CHR ''+'') then tl t else t);
          ds = takeWhile is_digit u
      in if ds = [] then None
         else Some (if neg then - int (digits_val ds) else int (digits_val ds)))"

text \<open>\<open>local[n]\<close> on an array: \<open>undefined\<close> for \<open>NaN\<close> and outside the array.\<close>

definition array_get :: "json list \<Rightarrow> int option \<Rightarrow> json option" where
  "array_get xs i =
     (case i of
        None \<Rightarrow> None
      | Some n \<Rightarrow> if 0 \<le> n \<and> n < int (length xs) then Some (xs ! nat n) else None)"

definition lookupDefinition :: "StringMap \<Rightarrow> string \<Rightarrow> error + StringMap" where
  "lookupDefinition schema n =
     (case checkStringMap (field schema ''definitions'') of
        Inl e \<Rightarrow> Inl e
      | Inr definitions \<Rightarrow> checkStringMap (field definitions n))"

text \<open>
  The inner function \<open>lookup\<close> of \<open>lookupRef\<close>. It closes over \<open>root\<close> and over the address
  of \<open>localRef\<close>, here its first two arguments.
\<close>

fun lookup ::
  "StringMap \<Rightarrow> string \<Rightarrow> json option \<Rightarrow> PathElement list \<Rightarrow> PathElement list
    \<Rightarrow> error + (StringMap \<times> Ref)" where
  "lookup root addr local localPath [] =
     (case checkStringMap local of
        Inl e \<Rightarrow> Inl e
      | Inr m \<Rightarrow> Inr (m, Ref addr localPath))"
| "lookup root addr local localPath (Root # rest) =
     lookup root addr (Some (JObj root)) [Root] rest"
| "lookup root addr local localPath (Definition n # rest) =
     (case checkStringMap local of
        Inl e \<Rightarrow> Inl e
      | Inr m \<Rightarrow>
          (case lookupDefinition m n of
             Inl e \<Rightarrow> Inl e
           | Inr d \<Rightarrow> lookup root addr (Some (JObj d)) (localPath @ [Definition n]) rest))"
| "lookup root addr local localPath (KeyOrIndex k # rest) =
     (case local of
        Some (JArr xs) \<Rightarrow>
          lookup root addr (array_get xs (parseInt (key_string k)))
            (localPath @ [KeyOrIndex k]) rest
      | _ \<Rightarrow>
          (case checkStringMap local of
             Inl e \<Rightarrow> Inl e
           | Inr m \<Rightarrow>
               lookup root addr (field m (key_string k)) (localPath @ [KeyOrIndex k]) rest))"
| "lookup root addr local localPath (Type i # rest) =
     Inl (Panic [Txt ''Cannot look up path that indexes \"type\"''])"
| "lookup root addr local localPath (Object # rest) =
     Inl (Panic [Txt ''Cannot look up path that indexes \"object\"''])"

definition Ref_lookupRef :: "Ref \<Rightarrow> StringMap \<Rightarrow> StringMap \<Rightarrow> Ref \<Rightarrow> error + (StringMap \<times> Ref)" where
  "Ref_lookupRef this root localSchema localRef =
     lookup root (address localRef) (Some (JObj localSchema)) (ref_path localRef) (ref_path this)"

section \<open>The type graph builder\<close>

text \<open>
  Modelled from the spec: the type graph builder (\<open>./TypeBuilder\<close>) is not part of the
  sources at hand. The spec (3, 4.4) has it hand out node handles for primitives, strings,
  enums, arrays, maps, classes, unions and intersections, allocate a union or an
  intersection whose members are not yet known and set its members later, and register a
  node as a named top-level type. The contract allows the builder to reuse a node for a
  structurally identical request and does not require it; this builder never does. A
  handle is the index of its node in the graph. Type attributes (names and descriptions)
  travel beside the nodes and decide no branch of the conversion; they are left out.
\<close>

type_synonym TypeRef = nat

datatype node =
    PrimitiveType string
  | StringType
  | ArrayType TypeRef
  | MapType TypeRef
  | ClassType "(string \<times> TypeRef \<times> bool) list"
  | EnumType "string list"
  | UnionType "TypeRef list option"
  | IntersectionType "TypeRef list option"

text \<open>
  The state of a conversion run: the graph and the top-level types of the builder, and
  \<open>typeForPath\<close>, the memo table of \<open>addTypesInSchema\<close>.
\<close>

record state =
  graph :: "node list"
  topLevels :: "(string \<times> TypeRef) list"
  typeForPath :: "PathElement list \<rightharpoonup> TypeRef"

text \<open>
  A call returns a value, throws, or runs out of fuel: the fuel bounds the depth of the
  calls of \<open>toType\<close>, which in the source is unbounded.
\<close>

datatype 'a outcome = OutOfFuel | Throw error | Return 'a

type_synonym 'a action = "state \<Rightarrow> ('a \<times> state) outcome"

definition returnM :: "'a \<Rightarrow> 'a action" where
  "returnM x = (\<lambda>st. Return (x, st))"

definition throwM :: "error \<Rightarrow> 'a action" where
  "throwM e = (\<lambda>st. Throw e)"

definition bindM :: "'a action \<Rightarrow> ('a \<Rightarrow> 'b action) \<Rightarrow> 'b action" where
  "bindM m f =
     (\<lambda>st. case m st of
              OutOfFuel \<Rightarrow> OutOfFuel
            | Throw e \<Rightarrow> Throw e
            | Return (x, st') \<Rightarrow> f x st')"

definition liftE :: "error + 'a \<Rightarrow> 'a action" where
  "liftE r = (case r of Inl e \<Rightarrow> throwM e | Inr x \<Rightarrow> returnM x)"

fun mapM :: "('a \<Rightarrow> 'b action) \<Rightarrow> 'a list \<Rightarrow> 'b list action" where
  "mapM f [] = returnM []"
| "mapM f (x # xs) = bindM (f x) (\<lambda>y. bindM (mapM f xs) (\<lambda>ys. returnM (y # ys)))"

text \<open>\<open>OrderedSet(xs)\<close>: the elements of \<open>xs\<close> in the order of their first occurrence.\<close>

definition OrderedSet :: "'a list \<Rightarrow> 'a list" where
  "OrderedSet xs = rev (remdups (rev xs))"

text \<open>
  Modelled from the spec: the operations of the builder (4.4), which \<open>./TypeBuilder\<close>
  defines. Each \<open>get\<close> operation adds a node and returns its handle;
  \<open>setSetOperationMembers\<close> sets the members of a union or an intersection and leaves any
  other node as it is; \<open>addTopLevel\<close> registers a handle under a name.
\<close>

definition addType :: "node \<Rightarrow> TypeRef action" where
  "addType n = (\<lambda>st. Return (length (graph st), st\<lparr>graph := graph st @ [n]\<rparr>))"

definition getPrimitiveType :: "string \<Rightarrow> TypeRef action" where
  "getPrimitiveType kind = addType (PrimitiveType kind)"

definition getStringType :: "TypeRef action" where
  "getStringType = addType StringType"

definition getEnumType :: "string list \<Rightarrow> TypeRef action" where
  "getEnumType cases = addType (EnumType cases)"

definition getArrayType :: "TypeRef \<Rightarrow> TypeRef action" where
  "getArrayType items = addType (ArrayType items)"

definition getMapType :: "TypeRef \<Rightarrow> TypeRef action" where
  "getMapType values = addType (MapType values)"

definition getUniqueClassType :: "(string \<times> TypeRef \<times> bool) list \<Rightarrow> TypeRef action" where
  "getUniqueClassType properties = addType (ClassType properties)"

definition getUnionType :: "TypeRef list \<Rightarrow> TypeRef action" where
  "getUnionType members = addType (UnionType (Some members))"

definition getUniqueUnionType :: "TypeRef action" where
  "getUniqueUnionType = addType (UnionType None)"

definition getUniqueIntersectionType :: "TypeRef action" where
  "getUniqueIntersectionType = addType (IntersectionType None)"

definition setSetOperationMembers :: "TypeRef \<Rightarrow> TypeRef list \<Rightarrow> unit action" where
  "setSetOperationMembers t members =
     (\<lambda>st. Return ((), st\<lparr>graph := (graph st)[t :=
        (case graph st ! t of
           UnionType _ \<Rightarrow> UnionType (Some members)
         | IntersectionType _ \<Rightarrow> IntersectionType (Some members)
         | n \<Rightarrow> n)]\<rparr>))"

definition addTopLevel :: "string \<Rightarrow> TypeRef \<Rightarrow> unit action" where
  "addTopLevel n t = (\<lambda>st. Return ((), st\<lparr>topLevels := topLevels st @ [(n, t)]\<rparr>))"

section \<open>Checks of the schema's fields\<close>

text \<open>
  The loops of \<open>checkStringArray\<close> and \<open>checkTypeList\<close>: the strings of the array, or the
  panic at its first element that is not a string, with the text before the element.
\<close>

fun allStrings :: "string \<Rightarrow> json list \<Rightarrow> error + string list" where
  "allStrings msg [] = Inr []"
| "allStrings msg (JStr s # xs) =
     (case allStrings msg xs of
        Inl e \<Rightarrow> Inl e
      | Inr ss \<Rightarrow> Inr (s # ss))"
| "allStrings msg (e # xs) = Inl (Panic [Txt msg, Val (Some e)])"

definition checkStringArray :: "json option \<Rightarrow> error + string list" where
  "checkStringArray arr =
     (case arr of
        Some (JArr xs) \<Rightarrow> allStrings ''Expected string, but got '' xs
      | _ \<Rightarrow> Inl (Panic [Txt ''Expected a string array, but got '', Val arr]))"

definition checkTypeList :: "json option \<Rightarrow> error + string list" where
  "checkTypeList typeOrTypes =
     (case typeOrTypes of
        Some (JStr s) \<Rightarrow> Inr (OrderedSet [s])
      | Some (JArr xs) \<Rightarrow>
          (case allStrings ''element of type is not a string: '' xs of
             Inl e \<Rightarrow> Inl e
           | Inr arr \<Rightarrow>
               if OrderedSet arr = []
               then Inl (Panic [Txt ''JSON Schema must specify at least one type''])
               else Inr (OrderedSet arr))
      | _ \<Rightarrow> Inl (Panic [Txt ''type is neither a string or array of strings: '', Val typeOrTypes]))"

text \<open>\<open>typeof v === "object"\<close> holds of objects, of arrays and of \<open>null\<close>.\<close>

definition typeof_object :: "json \<Rightarrow> bool" where
  "typeof_object v = (case v of JObj _ \<Rightarrow> True | JArr _ \<Rightarrow> True | JNull \<Rightarrow> True | _ \<Rightarrow> False)"

definition typeof_string :: "json \<Rightarrow> bool" where
  "typeof_string v = (case v of JStr _ \<Rightarrow> True | _ \<Rightarrow> False)"

text \<open>The truth value of \<open>if (v)\<close>.\<close>

definition truthy :: "json option \<Rightarrow> bool" where
  "truthy v =
     (case v of
        None \<Rightarrow> False
      | Some JNull \<Rightarrow> False
      | Some (JBool b) \<Rightarrow> b
      | Some (JNum n) \<Rightarrow> n \<noteq> 0
      | Some (JStr s) \<Rightarrow> s \<noteq> []
      | Some _ \<Rightarrow> True)"

section \<open>The conversion of a schema to types\<close>

text \<open>
  The inner functions of \<open>addTypesInSchema\<close> call one another and \<open>toType\<close>. Each is
  written over \<open>rec\<close>, the \<open>toType\<close> it calls; \<open>toType\<close> below closes the recursion.
  \<open>root\<close>, a variable of \<open>addTypesInSchema\<close>, is an argument where it is read.
\<close>

type_synonym converter = "StringMap \<Rightarrow> Ref \<Rightarrow> TypeRef action"

definition setTypeForPath :: "Ref \<Rightarrow> TypeRef \<Rightarrow> unit action" where
  "setTypeForPath path t =
     (\<lambda>st. case typeForPath st (Ref_immutable path) of
              None \<Rightarrow>
                Return ((), st\<lparr>typeForPath := (typeForPath st)(Ref_immutable path \<mapsto> t)\<rparr>)
            | Some maybeRef \<Rightarrow>
                if maybeRef = t
                then Return ((), st\<lparr>typeForPath := (typeForPath st)(Ref_immutable path \<mapsto> t)\<rparr>)
                else Throw (Panic [Txt ''Trying to set path again to different type'']))"

text \<open>
  \<open>makeClass\<close>: the pass over the properties that collects their descriptions reads
  \<open>propSchema.description\<close> of every property whose \<open>typeof\<close> is \<open>object\<close>, which throws
  on \<open>null\<close>, before any property is converted. The source iterates an immutable \<open>Map\<close>,
  whose order is not that of the document (its comment says so); here the properties are
  converted in the order of the entries.
\<close>

definition makeClass :: "converter \<Rightarrow> Ref \<Rightarrow> StringMap \<Rightarrow> string list \<Rightarrow> TypeRef action" where
  "makeClass rec path properties requiredArray =
     (if list_ex (\<lambda>(propName, propSchema). propSchema = JNull) properties then throwM TypeError
      else
        bindM (mapM (\<lambda>(propName, propSchema).
                 bindM (liftE (checkStringMap (Some propSchema))) (\<lambda>m.
                 bindM (rec m (Ref_push path [Key ''properties'', Key propName])) (\<lambda>t.
                 returnM (propName, t, propName \<notin> set requiredArray))))
               properties) (\<lambda>props.
        getUniqueClassType props))"

definition makeMap :: "converter \<Rightarrow> Ref \<Rightarrow> StringMap \<Rightarrow> TypeRef action" where
  "makeMap rec path additional =
     bindM (rec additional (Ref_push path [Key ''additionalProperties''])) (\<lambda>valuesType.
     getMapType valuesType)"

text \<open>
  The case \<open>"object"\<close> of \<open>fromTypeName\<close>. Its three \<open>if\<close> blocks are named:
  \<open>pushClass\<close> is the block on \<open>schema.properties\<close>, \<open>pushAdditional\<close> the block on
  \<open>schema.additionalProperties\<close>, and \<open>pushMapOfAny\<close> the block on an empty
  \<open>typesInUnion\<close>; each returns what it pushes on \<open>typesInUnion\<close>.
\<close>

definition pushClass :: "converter \<Rightarrow> StringMap \<Rightarrow> Ref \<Rightarrow> string list \<Rightarrow> TypeRef list action" where
  "pushClass rec schema path required =
     (case field schema ''properties'' of
        None \<Rightarrow> returnM []
      | Some properties \<Rightarrow>
          bindM (liftE (checkStringMap (Some properties))) (\<lambda>m.
          bindM (makeClass rec path m required) (\<lambda>c.
          returnM [c])))"

definition pushAdditional ::
  "converter \<Rightarrow> StringMap \<Rightarrow> Ref \<Rightarrow> string list \<Rightarrow> TypeRef list action" where
  "pushAdditional rec schema path required =
     (case field schema ''additionalProperties'' of
        None \<Rightarrow> returnM []
      | Some additional \<Rightarrow>
          if additional = JBool False then
            (if field schema ''properties'' = None
             then bindM (makeClass rec path [] required) (\<lambda>c. returnM [c])
             else returnM [])
          else if typeof_object additional then
            bindM (liftE (checkStringMap (Some additional))) (\<lambda>m.
            bindM (makeMap rec path m) (\<lambda>t.
            returnM [t]))
          else returnM [])"

definition pushMapOfAny :: "TypeRef list \<Rightarrow> TypeRef list action" where
  "pushMapOfAny typesInUnion =
     (if typesInUnion = []
      then bindM (getPrimitiveType ''any'') (\<lambda>a.
           bindM (getMapType a) (\<lambda>t.
           returnM [t]))
      else returnM [])"

definition fromTypeName_object :: "converter \<Rightarrow> StringMap \<Rightarrow> Ref \<Rightarrow> TypeRef action" where
  "fromTypeName_object rec schema path =
     bindM (liftE (case field schema ''required'' of
                     None \<Rightarrow> Inr []
                   | Some r \<Rightarrow> checkStringArray (Some r))) (\<lambda>required.
     bindM getUniqueUnionType (\<lambda>unionType.
     bindM (setTypeForPath path unionType) (\<lambda>_.
     bindM (pushClass rec schema path required) (\<lambda>pushed1.
     bindM (pushAdditional rec schema path required) (\<lambda>pushed2.
     bindM (pushMapOfAny (pushed1 @ pushed2)) (\<lambda>pushed3.
     bindM (setSetOperationMembers unionType (OrderedSet (pushed1 @ pushed2 @ pushed3))) (\<lambda>_.
     returnM unionType)))))))"

definition fromTypeName :: "converter \<Rightarrow> StringMap \<Rightarrow> Ref \<Rightarrow> string \<Rightarrow> TypeRef action" where
  "fromTypeName rec schema path typeName =
     (if typeName = ''object'' then fromTypeName_object rec schema path
      else if typeName = ''array'' then
        (case field schema ''items'' of
           Some items \<Rightarrow>
             bindM (liftE (checkStringMap (Some items))) (\<lambda>m.
             bindM (rec m (Ref_push path [Key ''items''])) (\<lambda>t.
             getArrayType t))
         | None \<Rightarrow> bindM (getPrimitiveType ''any'') (\<lambda>a. getArrayType a))
      else if typeName = ''boolean'' then getPrimitiveType ''bool''
      else if typeName = ''string'' then
        (case field schema ''format'' of
           Some format \<Rightarrow>
             if format = JStr ''date'' then getPrimitiveType ''date''
             else if format = JStr ''time'' then getPrimitiveType ''time''
             else if format = JStr ''date-time'' then getPrimitiveType ''date-time''
             else getStringType
         | None \<Rightarrow> getStringType)
      else if typeName = ''null'' then getPrimitiveType ''null''
      else if typeName = ''integer'' then getPrimitiveType ''integer''
      else if typeName = ''number'' then getPrimitiveType ''double''
      else throwM (Panic [Txt (''not a type name: '' @ typeName)]))"

definition makeTypesFromCases ::
  "converter \<Rightarrow> Ref \<Rightarrow> json option \<Rightarrow> PathElementKind \<Rightarrow> TypeRef list action" where
  "makeTypesFromCases rec path cases kind =
     (case cases of
        Some (JArr cs) \<Rightarrow>
          mapM (\<lambda>(t, index).
                 bindM (liftE (checkStringMap (Some t))) (\<lambda>m.
                 rec m (Ref_push path [CaseKey kind index])))
               (zip cs [0..<length cs])
      | _ \<Rightarrow> throwM (Panic [Txt ''Cases are not an array: '', Val cases]))"

definition convertOneOrAnyOf ::
  "converter \<Rightarrow> Ref \<Rightarrow> json option \<Rightarrow> PathElementKind \<Rightarrow> TypeRef action" where
  "convertOneOrAnyOf rec path cases kind =
     bindM getUniqueUnionType (\<lambda>unionType.
     bindM (makeTypesFromCases rec path cases kind) (\<lambda>ts.
     bindM (setSetOperationMembers unionType (OrderedSet ts)) (\<lambda>_.
     returnM unionType)))"

text \<open>The branch of \<open>convertToType\<close> for a schema whose \<open>enum\<close> is an array.\<close>

definition convertEnum :: "Ref \<Rightarrow> json list \<Rightarrow> TypeRef action" where
  "convertEnum path enum =
     (let haveNull = (JNull \<in> set enum);
          cases = filter (\<lambda>c. c \<noteq> JNull) enum
      in if filter (\<lambda>c. \<not> typeof_string c) cases \<noteq> []
         then throwM (Panic [Txt (''Non-string enum cases are not supported, at '' @ Ref_toString path)])
         else
           bindM (liftE (checkStringArray (Some (JArr cases)))) (\<lambda>strings.
           bindM (getEnumType (OrderedSet strings)) (\<lambda>tref.
           if haveNull
           then bindM (getPrimitiveType ''null'') (\<lambda>n. getUnionType (OrderedSet [tref, n]))
           else returnM tref)))"

text \<open>
  What \<open>convertToType\<close> does when the schema has no \<open>$ref\<close> and its \<open>enum\<close> is not an
  array. \<open>intersectionMembers\<close> is the part between the two calls on the intersection
  type: it fills the array \<open>types\<close> from \<open>allOf\<close>, \<open>oneOf\<close>, \<open>anyOf\<close> and the type names.
\<close>

definition intersectionMembers ::
  "converter \<Rightarrow> StringMap \<Rightarrow> Ref \<Rightarrow> string list option \<Rightarrow> TypeRef list action" where
  "intersectionMembers rec schema path jsonTypes =
     bindM (case field schema ''allOf'' of
              None \<Rightarrow> returnM []
            | Some allOf \<Rightarrow> makeTypesFromCases rec path (Some allOf) AllOfKind) (\<lambda>types1.
     bindM (if truthy (field schema ''oneOf'')
            then bindM (convertOneOrAnyOf rec path (field schema ''oneOf'') OneOfKind) (\<lambda>t.
                 returnM (types1 @ [t]))
            else returnM types1) (\<lambda>types2.
     bindM (if truthy (field schema ''anyOf'')
            then bindM (convertOneOrAnyOf rec path (field schema ''anyOf'') AnyOfKind) (\<lambda>t.
                 returnM (types2 @ [t]))
            else returnM types2) (\<lambda>types3.
     (case jsonTypes of
        None \<Rightarrow> returnM types3
      | Some names \<Rightarrow>
          if length names = 1 then
            bindM (fromTypeName rec schema (Ref_pushObject path) (hd names)) (\<lambda>t.
            returnM (types3 @ [t]))
          else
            bindM getUniqueUnionType (\<lambda>unionType.
            bindM (mapM (\<lambda>(n, index). fromTypeName rec schema (Ref_pushType path index) n)
                     (zip names [0..<length names])) (\<lambda>unionTypes.
            bindM (setSetOperationMembers unionType (OrderedSet unionTypes)) (\<lambda>_.
            returnM (types3 @ [unionType]))))))))"

text \<open>The value of the variable \<open>jsonTypes\<close>, with \<open>None\<close> for \<open>undefined\<close>.\<close>

definition jsonTypesOf :: "StringMap \<Rightarrow> error + string list option" where
  "jsonTypesOf schema =
     (case field schema ''type'' of
        Some t \<Rightarrow>
          (case checkTypeList (Some t) of
             Inl e \<Rightarrow> Inl e
           | Inr names \<Rightarrow> Inr (Some names))
      | None \<Rightarrow>
          if field schema ''properties'' \<noteq> None \<or> field schema ''additionalProperties'' \<noteq> None
          then Inr (Some (OrderedSet [''object'']))
          else Inr None)"

definition convertIntersection :: "converter \<Rightarrow> StringMap \<Rightarrow> Ref \<Rightarrow> TypeRef action" where
  "convertIntersection rec schema path =
     bindM (liftE (jsonTypesOf schema)) (\<lambda>jsonTypes.
     bindM getUniqueIntersectionType (\<lambda>intersectionType.
     bindM (setTypeForPath path intersectionType) (\<lambda>_.
     bindM (intersectionMembers rec schema path jsonTypes) (\<lambda>types.
     bindM (setSetOperationMembers intersectionType (OrderedSet types)) (\<lambda>_.
     returnM intersectionType)))))"

text \<open>
  \<open>convertToType\<close>. In the \<open>$ref\<close> branch the source also reads \<open>ref.name\<close> for the type
  names; on a parsed reference \<open>name\<close> returns (every key is a string, and there is no
  \<open>Type\<close> or \<open>Object\<close> element).
\<close>

definition convertToType :: "converter \<Rightarrow> StringMap \<Rightarrow> StringMap \<Rightarrow> Ref \<Rightarrow> TypeRef action" where
  "convertToType rec root schema path =
     (case field schema ''$ref'' of
        Some r \<Rightarrow>
          bindM (liftE (Ref_parse (address path) (Some r))) (\<lambda>ref.
          bindM (liftE (Ref_lookupRef ref root schema path)) (\<lambda>(target, targetPath).
          rec target targetPath))
      | None \<Rightarrow>
          (case field schema ''enum'' of
             Some (JArr enum) \<Rightarrow> convertEnum path enum
           | _ \<Rightarrow> convertIntersection rec schema path))"

definition toType_body :: "converter \<Rightarrow> StringMap \<Rightarrow> StringMap \<Rightarrow> Ref \<Rightarrow> TypeRef action" where
  "toType_body rec root schema path =
     (\<lambda>st. case typeForPath st (Ref_immutable path) of
              Some maybeType \<Rightarrow> Return (maybeType, st)
            | None \<Rightarrow>
                bindM (convertToType rec root schema path) (\<lambda>result.
                bindM (setTypeForPath path result) (\<lambda>_.
                returnM result)) st)"

fun toType :: "nat \<Rightarrow> StringMap \<Rightarrow> converter" where
  "toType 0 root = (\<lambda>schema path st. OutOfFuel)"
| "toType (Suc fuel) root = toType_body (toType fuel root) root"

text \<open>
  \<open>addTypesInSchema\<close>: the memo table starts empty, and the references are converted in
  the order of their entries. \<open>convertTopLevel\<close> is the function given to
  \<open>references.forEach\<close>.
\<close>

definition convertTopLevel :: "nat \<Rightarrow> StringMap \<Rightarrow> string \<Rightarrow> string \<times> Ref \<Rightarrow> unit action" where
  "convertTopLevel fuel root rootAddress entry =
     (case entry of (topLevelName, topLevelRef) \<Rightarrow>
        bindM (liftE (Ref_lookupRef topLevelRef root root (Ref_root rootAddress)))
          (\<lambda>(target, targetPath).
        bindM (toType fuel root target targetPath) (\<lambda>t.
        addTopLevel topLevelName t)))"

definition addTypesInSchema ::
  "nat \<Rightarrow> json option \<Rightarrow> string \<Rightarrow> (string \<times> Ref) list \<Rightarrow> unit action" where
  "addTypesInSchema fuel rootJson rootAddress references =
     bindM (liftE (checkStringMap rootJson)) (\<lambda>root.
     bindM (\<lambda>st. Return ((), st\<lparr>typeForPath := Map.empty\<rparr>)) (\<lambda>_.
     bindM (mapM (convertTopLevel fuel root rootAddress) references) (\<lambda>_.
     returnM ())))"

section \<open>Specification-level definitions\<close>

text \<open>
  The ways to build a reference without parsing: \<open>root\<close>, then any sequence of \<open>push\<close>,
  \<open>pushDefinition\<close>, \<open>pushObject\<close> and \<open>pushType\<close>.
\<close>

datatype RefOp = Push "key list" | PushDefinition string | PushObject | PushType nat

fun applyOp :: "Ref \<Rightarrow> RefOp \<Rightarrow> Ref" where
  "applyOp r (Push keys) = Ref_push r keys"
| "applyOp r (PushDefinition n) = Ref_pushDefinition r n"
| "applyOp r PushObject = Ref_pushObject r"
| "applyOp r (PushType i) = Ref_pushType r i"

fun op_elements :: "RefOp \<Rightarrow> PathElement list" where
  "op_elements (Push keys) = map KeyOrIndex keys"
| "op_elements (PushDefinition n) = [Definition n]"
| "op_elements PushObject = [Object]"
| "op_elements (PushType i) = [Type i]"

definition construct :: "string \<Rightarrow> RefOp list \<Rightarrow> Ref" where
  "construct source ops = foldl applyOp (Ref_root source) ops"

text \<open>
  The paths that \<open>parse\<close> reads back from their string form: \<open>Root\<close> elements,
  definitions whose name has no \<open>/\<close>, and string keys that have no \<open>/\<close>, are not \<open>#\<close>,
  and are \<open>definitions\<close> in the last position only.
\<close>

fun reparsable :: "PathElement list \<Rightarrow> bool" where
  "reparsable [] = True"
| "reparsable (Root # es) = reparsable es"
| "reparsable (Definition n # es) = (CHR ''/'' \<notin> set n \<and> reparsable es)"
| "reparsable (KeyOrIndex (Key k) # es) =
     (CHR ''/'' \<notin> set k \<and> k \<noteq> ''#'' \<and> (k = ''definitions'' \<longrightarrow> es = []) \<and> reparsable es)"
| "reparsable (KeyOrIndex (CaseKey _ _) # es) = False"
| "reparsable (Type _ # es) = False"
| "reparsable (Object # es) = False"

text \<open>The parts of the string form of a path, element by element.\<close>

definition parts_of :: "PathElement list \<Rightarrow> string list" where
  "parts_of es = concat (map (\<lambda>e. js_split CHR ''/'' (elementToString e)) es)"

text \<open>
  The resolver as the spec (4.2) words it: a walk over the elements of the target that
  carries the current fragment and the reference walked so far. \<open>Root\<close> starts over at the
  root document; \<open>Definition\<close> needs an object with an object \<open>definitions\<close> that has an
  object under the name; \<open>KeyOrIndex\<close> indexes an array by the base-10 integer parse of
  the key and an object by the key; \<open>Type\<close> and \<open>Object\<close> are fatal. The walk ends on
  an object, returned with the reference walked.
\<close>

definition resolveStep ::
  "StringMap \<Rightarrow> json option \<times> PathElement list \<Rightarrow> PathElement
    \<Rightarrow> error + (json option \<times> PathElement list)" where
  "resolveStep rootDocument w e =
     (case w of (frag, walked) \<Rightarrow>
        (case e of
           Root \<Rightarrow> Inr (Some (JObj rootDocument), [Root])
         | Definition n \<Rightarrow>
             (case frag of
                Some (JObj m) \<Rightarrow>
                  (case field m ''definitions'' of
                     Some (JObj ds) \<Rightarrow>
                       (case field ds n of
                          Some (JObj d) \<Rightarrow> Inr (Some (JObj d), walked @ [e])
                        | absent \<Rightarrow> Inl (NotAStringMap absent))
                   | absent \<Rightarrow> Inl (NotAStringMap absent))
              | absent \<Rightarrow> Inl (NotAStringMap absent))
         | KeyOrIndex k \<Rightarrow>
             (case frag of
                Some (JArr xs) \<Rightarrow> Inr (array_get xs (parseInt (key_string k)), walked @ [e])
              | Some (JObj m) \<Rightarrow> Inr (field m (key_string k), walked @ [e])
              | absent \<Rightarrow> Inl (NotAStringMap absent))
         | Type i \<Rightarrow> Inl (Panic [Txt ''Cannot look up path that indexes \"type\"''])
         | Object \<Rightarrow> Inl (Panic [Txt ''Cannot look up path that indexes \"object\"''])))"

fun resolveWalk ::
  "StringMap \<Rightarrow> json option \<times> PathElement list \<Rightarrow> PathElement list
    \<Rightarrow> error + (json option \<times> PathElement list)" where
  "resolveWalk rootDocument w [] = Inr w"
| "resolveWalk rootDocument w (e # es) =
     (case resolveStep rootDocument w e of
        Inl err \<Rightarrow> Inl err
      | Inr w' \<Rightarrow> resolveWalk rootDocument w' es)"

definition lookupRef_spec :: "Ref \<Rightarrow> StringMap \<Rightarrow> StringMap \<Rightarrow> Ref \<Rightarrow> error + (StringMap \<times> Ref)" where
  "lookupRef_spec target rootDocument localDocument localReference =
     (case resolveWalk rootDocument (Some (JObj localDocument), ref_path localReference)
             (ref_path target) of
        Inl err \<Rightarrow> Inl err
      | Inr (frag, walked) \<Rightarrow>
          (case frag of
             Some (JObj m) \<Rightarrow> Inr (m, Ref (address localReference) walked)
           | absent \<Rightarrow> Inl (NotAStringMap absent)))"

text \<open>
  A document to resolve references in:
  \<open>{"items": [{"a": 1}, {"b": 2}], "definitions": {"N": {"c": 3}, "M": 4}}\<close>.
\<close>

definition lookupDocument :: StringMap where
  "lookupDocument =
     [(''items'', JArr [JObj [(''a'', JNum 1)], JObj [(''b'', JNum 2)]]),
      (''definitions'', JObj [(''N'', JObj [(''c'', JNum 3)]), (''M'', JNum 4)])]"

section \<open>What a conversion keeps\<close>

text \<open>
  \<open>keeps k st0 st\<close>: the state \<open>st\<close> has every binding of the memo table of \<open>st0\<close>, and
  the first \<open>k\<close> nodes of its graph are those of \<open>st0\<close>.
\<close>

definition keeps :: "nat \<Rightarrow> state \<Rightarrow> state \<Rightarrow> bool" where
  "keeps k st0 st =
     (typeForPath st0 \<subseteq>\<^sub>m typeForPath st \<and> k \<le> length (graph st)
      \<and> take k (graph st) = take k (graph st0))"

text \<open>
  \<open>agree k st0 m m'\<close>: from every state that keeps \<open>st0\<close>, the actions \<open>m\<close> and \<open>m'\<close> have
  the same outcome, and a state they return keeps \<open>st0\<close>. With \<open>m' = m\<close> it says what
  \<open>m\<close> preserves.
\<close>

definition agree :: "nat \<Rightarrow> state \<Rightarrow> 'a action \<Rightarrow> 'a action \<Rightarrow> bool" where
  "agree k st0 m m' =
     (\<forall>st. keeps k st0 st \<longrightarrow>
        m st = m' st \<and> (\<forall>x st'. m st = Return (x, st') \<longrightarrow> keeps k st0 st'))"

definition agree_conv :: "nat \<Rightarrow> state \<Rightarrow> converter \<Rightarrow> converter \<Rightarrow> bool" where
  "agree_conv k st0 rec rec' = (\<forall>schema path. agree k st0 (rec schema path) (rec' schema path))"

text \<open>\<open>returned r\<close>: the call returned; it neither threw nor ran out of fuel.\<close>

definition returned :: "'a outcome \<Rightarrow> bool" where
  "returned r = (case r of Return x \<Rightarrow> True | _ \<Rightarrow> False)"



text \<open>A builder with no node and no top-level type; the memo table is empty.\<close>

definition initial_state :: state where
  "initial_state = \<lparr>graph = [], topLevels = [], typeForPath = Map.empty\<rparr>"




text \<open>The strings among the cases of an \<open>enum\<close>, in their order.\<close>

fun strings_in :: "json list \<Rightarrow> string list" where
  "strings_in [] = []"
| "strings_in (JStr s # cs) = s # strings_in cs"
| "strings_in (c # cs) = strings_in cs"






section \<open>Strings: split and join\<close>

lemma js_split_nonempty: "js_split c a \<noteq> []"
  by (induction a) (auto split: list.splits)

lemma js_split_append: "js_split c (a @ c # b) = js_split c a @ js_split c b"
proof (induction a)
  case Nil
  show ?case by simp
next
  case (Cons x a)
  obtain p ps where s: "js_split c a = p # ps"
    using js_split_nonempty [of c a] by (cases "js_split c a") auto
  show ?case using Cons s by simp
qed

lemma js_split_no_sep: "c \<notin> set a \<Longrightarrow> js_split c a = [a]"
  by (induction a) (auto split: list.splits)

lemma js_split_hd_no_sep: "c \<notin> set (hd (js_split c a))"
  by (induction a) (auto split: list.splits)

lemma js_split_hd_eq: "(hd (js_split c a) = a) = (c \<notin> set a)"
  using js_split_hd_no_sep [of c a] js_split_no_sep [of c a] by auto

lemma js_split_join:
  "xs \<noteq> [] \<Longrightarrow> js_split c (js_join [c] xs) = concat (map (js_split c) xs)"
proof (induction xs rule: induct_list012)
  case 1
  then show ?case by simp
next
  case (2 x)
  then show ?case by simp
next
  case (3 x y zs)
  then show ?case by (simp add: js_split_append)
qed

lemma split_definition:
  "js_split CHR ''/'' (''definitions/'' @ n) = ''definitions'' # js_split CHR ''/'' n"
proof -
  have "js_split CHR ''/'' (''definitions'' @ CHR ''/'' # n)
        = js_split CHR ''/'' ''definitions'' @ js_split CHR ''/'' n"
    by (rule js_split_append)
  then show ?thesis by simp
qed

lemma split_type:
  "js_split CHR ''/'' (''type/'' @ n) = ''type'' # js_split CHR ''/'' n"
proof -
  have "js_split CHR ''/'' (''type'' @ CHR ''/'' # n)
        = js_split CHR ''/'' ''type'' @ js_split CHR ''/'' n"
    by (rule js_split_append)
  then show ?thesis by simp
qed

section \<open>Parsing a reference\<close>

lemma parse_hash: "parseElements (''#'' # ps) = Root # parseElements ps"
  by (cases ps) auto

lemma parse_key:
  "p \<noteq> ''#'' \<Longrightarrow> p = ''definitions'' \<longrightarrow> ps = [] \<Longrightarrow>
   parseElements (p # ps) = KeyOrIndex (Key p) # parseElements ps"
  by (cases ps) auto

lemma parse_head_key:
  "parseElements (p # ps) = KeyOrIndex (Key k) # es \<Longrightarrow>
   p = k \<and> k \<noteq> ''#'' \<and> (k = ''definitions'' \<longrightarrow> ps = []) \<and> parseElements ps = es"
  by (cases ps) (auto split: if_splits)

lemma parse_head_root: "(hd (parseElements (p # ps)) = Root) = (p = ''#'')"
  by (cases ps) auto

lemma parse_nonempty: "parseElements (p # ps) \<noteq> []"
  by (cases ps) auto

lemma parse_append:
  "pre = [] \<or> last pre \<noteq> ''definitions'' \<Longrightarrow>
   parseElements (pre @ rest) = parseElements pre @ parseElements rest"
proof (induction pre rule: parseElements.induct)
  case 1
  show ?case by simp
next
  case (2 p)
  then show ?case by (cases rest) auto
next
  case (3 p q ps)
  then show ?case by (cases "ps = []") auto
qed

lemma parse_definitions_run:
  "parseElements (replicate k ''definitions'')
   = replicate (k div 2) (Definition ''definitions'')
     @ (if odd k then [KeyOrIndex (Key ''definitions'')] else [])"
proof (induction k rule: less_induct)
  case (less k)
  show ?case
  proof (cases k)
    case 0
    then show ?thesis by simp
  next
    case (Suc j)
    show ?thesis
    proof (cases j)
      case 0
      then show ?thesis using Suc by simp
    next
      case (Suc i)
      have "i < k" using \<open>k = Suc j\<close> Suc by simp
      then show ?thesis using less [of i] \<open>k = Suc j\<close> Suc by simp
    qed
  qed
qed

lemma parse_Definition_from:
  "Definition n \<in> set (parseElements parts) \<Longrightarrow>
   \<exists>i. Suc i < length parts \<and> parts ! i = ''definitions'' \<and> parts ! Suc i = n"
proof (induction parts rule: parseElements.induct)
  case 1
  then show ?case by simp
next
  case (2 p)
  then show ?case by (simp split: if_splits)
next
  case (3 p q ps)
  show ?case
  proof (cases "p = ''#''")
    case True
    then have "Definition n \<in> set (parseElements (q # ps))" using 3 by simp
    then obtain i where "Suc i < length (q # ps)" "(q # ps) ! i = ''definitions''"
      "(q # ps) ! Suc i = n" using 3 True by blast
    then have "Suc (Suc i) < length (p # q # ps) \<and> (p # q # ps) ! Suc i = ''definitions''
      \<and> (p # q # ps) ! Suc (Suc i) = n" by simp
    then show ?thesis by blast
  next
    case False
    show ?thesis
    proof (cases "p = ''definitions''")
      case True
      show ?thesis
      proof (cases "n = q")
        case True
        then have "Suc 0 < length (p # q # ps) \<and> (p # q # ps) ! 0 = ''definitions''
          \<and> (p # q # ps) ! Suc 0 = n" using \<open>p = ''definitions''\<close> by simp
        then show ?thesis by blast
      next
        case nq: False
        then have "Definition n \<in> set (parseElements ps)" using 3(4) True by simp
        then obtain i where "Suc i < length ps" "ps ! i = ''definitions''" "ps ! Suc i = n"
          using 3(2) False True by blast
        then have "Suc (Suc (Suc i)) < length (p # q # ps)
          \<and> (p # q # ps) ! Suc (Suc i) = ''definitions''
          \<and> (p # q # ps) ! Suc (Suc (Suc i)) = n" by simp
        then show ?thesis by blast
      qed
    next
      case nd: False
      then have "Definition n \<in> set (parseElements (q # ps))" using 3(4) False by simp
      then obtain i where "Suc i < length (q # ps)" "(q # ps) ! i = ''definitions''"
        "(q # ps) ! Suc i = n" using 3(3) False nd by blast
      then have "Suc (Suc i) < length (p # q # ps) \<and> (p # q # ps) ! Suc i = ''definitions''
        \<and> (p # q # ps) ! Suc (Suc i) = n" by simp
      then show ?thesis by blast
    qed
  qed
qed

lemma parse_plain:
  "\<forall>p\<in>set parts. p \<noteq> ''#'' \<and> p \<noteq> ''definitions'' \<Longrightarrow>
   parseElements parts = map (\<lambda>p. KeyOrIndex (Key p)) parts"
  by (induction parts rule: parseElements.induct) auto

lemma name_loop_skips:
  "\<forall>e\<in>set es. \<exists>k. e = KeyOrIndex (Key k) \<and> \<not> numberRegexp k \<Longrightarrow>
   name_loop es = Inr ''Something''"
  by (induction es) auto

lemma parts_of_Nil_iff: "(parts_of es = []) = (es = [])"
  by (cases es) (auto simp: parts_of_def js_split_nonempty)

lemma parts_of_Cons: "parts_of (e # es) = js_split CHR ''/'' (elementToString e) @ parts_of es"
  by (simp add: parts_of_def)

lemma parse_parts_of: "(parseElements (parts_of es) = es) = reparsable es"
proof (induction es rule: reparsable.induct)
  case 1
  show ?case by (simp add: parts_of_def)
next
  case (2 es)
  then show ?case by (simp add: parts_of_Cons elementToString_def parse_hash)
next
  case (3 n es)
  obtain n1 ns where s: "js_split CHR ''/'' n = n1 # ns"
    using js_split_nonempty [of "CHR ''/''" n] by (cases "js_split CHR ''/'' n") auto
  have n1: "(n1 = n) = (CHR ''/'' \<notin> set n)"
    using js_split_hd_eq [of "CHR ''/''" n] s by simp
  show ?case
  proof (cases "CHR ''/'' \<in> set n")
    case True
    then show ?thesis using s n1 by (simp add: parts_of_Cons elementToString_def split_definition)
  next
    case False
    then have "js_split CHR ''/'' n = [n]" by (simp add: js_split_no_sep)
    then show ?thesis using 3 False
      by (simp add: parts_of_Cons elementToString_def split_definition)
  qed
next
  case (4 k es)
  obtain k1 ks where s: "js_split CHR ''/'' k = k1 # ks"
    using js_split_nonempty [of "CHR ''/''" k] by (cases "js_split CHR ''/'' k") auto
  have k1: "(k1 = k) = (CHR ''/'' \<notin> set k)"
    using js_split_hd_eq [of "CHR ''/''" k] s by simp
  show ?case
  proof (cases "CHR ''/'' \<in> set k")
    case True
    have "parseElements (k1 # ks @ parts_of es) \<noteq> KeyOrIndex (Key k) # es"
      using parse_head_key [of k1 "ks @ parts_of es" k es] k1 True by auto
    then show ?thesis using True s
      by (simp add: parts_of_Cons elementToString_def key_string_def)
  next
    case False
    then have sk: "js_split CHR ''/'' k = [k]" by (simp add: js_split_no_sep)
    have eq: "(parseElements (parts_of (KeyOrIndex (Key k) # es)) = KeyOrIndex (Key k) # es)
              = (parseElements (k # parts_of es) = KeyOrIndex (Key k) # es)"
      using sk by (simp add: parts_of_Cons elementToString_def key_string_def)
    show ?thesis
    proof (cases "k = ''#''")
      case True
      then show ?thesis unfolding eq by (simp add: parse_hash)
    next
      case nh: False
      show ?thesis
      proof (cases "k = ''definitions'' \<and> es \<noteq> []")
        case True
        then obtain p ps where "parts_of es = p # ps"
          using parts_of_Nil_iff [of es] by (cases "parts_of es") auto
        then show ?thesis unfolding eq using True by simp
      next
        case nd: False
        have "parseElements (k # parts_of es) = KeyOrIndex (Key k) # parseElements (parts_of es)"
          using nh nd by (intro parse_key) (auto simp: parts_of_Nil_iff)
        then show ?thesis unfolding eq using 4 nh nd False by auto
      qed
    qed
  qed
next
  case (6 v es)
  have "parseElements (''type'' # js_split CHR ''/'' (show_nat v) @ parts_of es) \<noteq> Type v # es"
    using js_split_nonempty [of "CHR ''/''" "show_nat v"]
    by (cases "js_split CHR ''/'' (show_nat v) @ parts_of es") auto
  then show ?case
    by (simp add: parts_of_Cons elementToString_def split_type)
next
  case (7 es)
  have "parseElements (''object'' # parts_of es) \<noteq> Object # es"
    by (cases "parts_of es") auto
  then show ?case by (simp add: parts_of_Cons elementToString_def)
next
  case (5 a b es)
  have "parseElements (''[object Object]'' # parts_of es) \<noteq> KeyOrIndex (CaseKey a b) # es"
    by (cases "parts_of es") auto
  then show ?case by (simp add: parts_of_Cons elementToString_def key_string_def)
qed

lemma split_toString:
  "ref_path r \<noteq> [] \<Longrightarrow> js_split CHR ''/'' (Ref_toString r) = parts_of (ref_path r)"
  unfolding Ref_toString_def parts_of_def
  using js_split_join [of "map elementToString (ref_path r)" "CHR ''/''"]
  by (simp add: comp_def)

lemma ref_path_push: "ref_path (Ref_push r keys) = ref_path r @ map KeyOrIndex keys"
  unfolding Ref_push_def by (induction keys arbitrary: r) (auto simp: pushElement_def)

lemma address_push: "address (Ref_push r keys) = address r"
  unfolding Ref_push_def by (induction keys arbitrary: r) (auto simp: pushElement_def)

lemma ref_path_applyOp: "ref_path (applyOp r op) = ref_path r @ op_elements op"
  by (cases op)
     (simp_all add: ref_path_push Ref_pushDefinition_def Ref_pushObject_def Ref_pushType_def
        pushElement_def)

lemma address_applyOp: "address (applyOp r op) = address r"
  by (cases op)
     (simp_all add: address_push Ref_pushDefinition_def Ref_pushObject_def Ref_pushType_def
        pushElement_def)

lemma ref_path_foldl_applyOp:
  "ref_path (foldl applyOp r ops) = ref_path r @ concat (map op_elements ops)"
  by (induction ops arbitrary: r) (auto simp: ref_path_applyOp)

lemma address_foldl_applyOp: "address (foldl applyOp r ops) = address r"
  by (induction ops arbitrary: r) (auto simp: address_applyOp)

section \<open>Resolving a reference: the source against the spec\<close>

lemma lookup_walk:
  "lookup root addr local localPath path =
     (case resolveWalk root (local, localPath) path of
        Inl err \<Rightarrow> Inl err
      | Inr (frag, walked) \<Rightarrow>
          (case frag of
             Some (JObj m) \<Rightarrow> Inr (m, Ref addr walked)
           | absent \<Rightarrow> Inl (NotAStringMap absent)))"
proof (induction path arbitrary: local localPath)
  case Nil
  show ?case by (simp add: checkStringMap_def split: option.splits json.splits)
next
  case (Cons e es)
  show ?case
  proof (cases e)
    case Root
    then show ?thesis using Cons by (simp add: resolveStep_def)
  next
    case (Definition n)
    then show ?thesis using Cons
      by (simp add: resolveStep_def lookupDefinition_def checkStringMap_def
               split: option.splits json.splits)
  next
    case (Type i)
    then show ?thesis by (simp add: resolveStep_def)
  next
    case Object
    then show ?thesis by (simp add: resolveStep_def)
  next
    case (KeyOrIndex k)
    then show ?thesis using Cons
      by (simp add: resolveStep_def checkStringMap_def split: option.splits json.splits)
  qed
qed

lemma resolveWalk_append:
  "resolveWalk root w (pre @ post) =
     (case resolveWalk root w pre of
        Inl err \<Rightarrow> Inl err
      | Inr w' \<Rightarrow> resolveWalk root w' post)"
  by (induction pre arbitrary: w) (auto split: sum.splits)

lemma digit_char_is_digit: "d < 10 \<Longrightarrow> is_digit (digit_char d)"
proof -
  assume "d < 10"
  then have "d \<in> {0,1,2,3,4,5,6,7,8,9}" by auto
  then show ?thesis by (auto simp: is_digit_def digit_char_def)
qed

lemma digit_val_digit_char: "d < 10 \<Longrightarrow> digit_val (digit_char d) = d"
proof -
  assume "d < 10"
  then have "d \<in> {0,1,2,3,4,5,6,7,8,9}" by auto
  then show ?thesis by (auto simp: digit_val_def digit_char_def)
qed

lemma show_nat_digits: "list_all is_digit (show_nat n) \<and> show_nat n \<noteq> []"
proof (induction n rule: show_nat.induct)
  case (1 n)
  show ?case
  proof (cases "n < 10")
    case True
    then show ?thesis by (subst show_nat.simps, subst show_nat.simps) (simp add: digit_char_is_digit)
  next
    case False
    then show ?thesis using 1
      by (subst show_nat.simps, subst (2) show_nat.simps) (simp add: digit_char_is_digit)
  qed
qed

lemma digits_val_show_nat: "digits_val (show_nat n) = n"
proof (induction n rule: show_nat.induct)
  case (1 n)
  show ?case
  proof (cases "n < 10")
    case True
    then show ?thesis by (subst show_nat.simps) (simp add: digits_val_def digit_val_digit_char)
  next
    case False
    then have "digits_val (show_nat (n div 10)) = n div 10" using 1 by simp
    then show ?thesis using False
      by (subst show_nat.simps) (simp add: digits_val_def digit_val_digit_char)
  qed
qed

lemma is_digit_not_space: "is_digit c \<Longrightarrow> \<not> is_space c \<and> c \<noteq> CHR ''-'' \<and> c \<noteq> CHR ''+''"
  by (auto simp: is_digit_def is_space_def)

lemma parseInt_show_nat: "parseInt (show_nat n) = Some (int n)"
proof -
  obtain c cs where s: "show_nat n = c # cs" using show_nat_digits [of n] by (cases "show_nat n") auto
  have all: "list_all is_digit (c # cs)" using show_nat_digits [of n] s by simp
  then have c: "\<not> is_space c \<and> c \<noteq> CHR ''-'' \<and> c \<noteq> CHR ''+''" using is_digit_not_space by simp
  have t: "takeWhile is_digit (c # cs) = c # cs" using all by (simp add: list_all_iff)
  have "parseInt (c # cs) = Some (int (digits_val (c # cs)))"
    using c by (simp add: parseInt_def Let_def t del: takeWhile.simps)
  then show ?thesis using digits_val_show_nat [of n] s by simp
qed

lemma lookup_array_index:
  "lookup root addr (Some (JArr xs)) localPath (KeyOrIndex (Key (show_nat n)) # rest)
   = lookup root addr (if n < length xs then Some (xs ! n) else None)
       (localPath @ [KeyOrIndex (Key (show_nat n))]) rest"
  by (simp add: array_get_def parseInt_show_nat key_string_def)

section \<open>The claims about references\<close>

text \<open>
  C5. \<open>lookupRef\<close> is the walk of the spec: it walks the elements of the target against
  the local document, starts over at the root document, with the walked reference reset
  to \<open>Root\<close> alone, at a \<open>Root\<close> element; a \<open>Definition\<close> resolves
  \<open>fragment.definitions[name]\<close> and fails when \<open>definitions\<close> or the entry is absent or
  not an object; a \<open>KeyOrIndex\<close> indexes an array by the base-10 integer parse of the key
  and an object by the key; a \<open>Type\<close> or \<open>Object\<close> element is fatal; the result is the
  resolved fragment with the reference walked. The second conjunct is the restart: every
  element before a \<open>Root\<close> is walked (and may fail), and nothing of that walk is kept.
  The third and fourth conjuncts are the index: a key that is the decimal form of \<open>n\<close>
  parses to \<open>n\<close>, and the walk goes on with element \<open>n\<close> of the array, or with
  \<open>undefined\<close> outside of it. The other conjuncts are walks of the document
  \<open>{"items": [{"a": 1}, {"b": 2}], "definitions": {"N": {"c": 3}, "M": 4}}\<close>: the second
  element of \<open>items\<close>, by the key \<open>1\<close> and by the key \<open>01x\<close>, whose integer parse is 1;
  the failures outside the array and on a key with no digit; a key of an object; a
  definition, a definition that is not an object and one that is absent; a relative
  pointer, walked from the local document and its reference; and the fatal elements.
\<close>

theorem lookupRef_refines_spec:
  "Ref_lookupRef target root localSchema localRef
     = lookupRef_spec target root localSchema localRef
   \<and> resolveWalk root w (pre @ Root # post) =
       (case resolveWalk root w pre of
          Inl err \<Rightarrow> Inl err
        | Inr w' \<Rightarrow> resolveWalk root (Some (JObj root), [Root]) post)
   \<and> parseInt (show_nat n) = Some (int n)
   \<and> lookup root addr (Some (JArr xs)) localPath (KeyOrIndex (Key (show_nat n)) # rest)
     = lookup root addr (if n < length xs then Some (xs ! n) else None)
         (localPath @ [KeyOrIndex (Key (show_nat n))]) rest
   \<and> Ref_lookupRef (Ref ''a'' [Root, KeyOrIndex (Key ''items''), KeyOrIndex (Key ''1'')])
        lookupDocument [] (Ref ''a'' [Root, KeyOrIndex (Key ''x'')])
     = Inr ([(''b'', JNum 2)], Ref ''a'' [Root, KeyOrIndex (Key ''items''), KeyOrIndex (Key ''1'')])
   \<and> Ref_lookupRef (Ref ''a'' [Root, KeyOrIndex (Key ''items''), KeyOrIndex (Key ''01x'')])
        lookupDocument [] (Ref ''a'' [Root])
     = Inr ([(''b'', JNum 2)], Ref ''a'' [Root, KeyOrIndex (Key ''items''), KeyOrIndex (Key ''01x'')])
   \<and> Ref_lookupRef (Ref ''a'' [Root, KeyOrIndex (Key ''items''), KeyOrIndex (Key ''2'')])
        lookupDocument [] (Ref ''a'' [Root])
     = Inl (NotAStringMap None)
   \<and> Ref_lookupRef (Ref ''a'' [Root, KeyOrIndex (Key ''items''), KeyOrIndex (Key ''-1'')])
        lookupDocument [] (Ref ''a'' [Root])
     = Inl (NotAStringMap None)
   \<and> Ref_lookupRef (Ref ''a'' [Root, KeyOrIndex (Key ''items''), KeyOrIndex (Key ''a'')])
        lookupDocument [] (Ref ''a'' [Root])
     = Inl (NotAStringMap None)
   \<and> Ref_lookupRef (Ref ''a'' [Root, KeyOrIndex (Key ''items'')])
        lookupDocument [] (Ref ''a'' [Root])
     = Inl (NotAStringMap (Some (JArr [JObj [(''a'', JNum 1)], JObj [(''b'', JNum 2)]])))
   \<and> Ref_lookupRef (Ref ''a'' [Root, KeyOrIndex (Key ''definitions''), KeyOrIndex (Key ''N'')])
        lookupDocument [] (Ref ''a'' [Root])
     = Inr ([(''c'', JNum 3)],
            Ref ''a'' [Root, KeyOrIndex (Key ''definitions''), KeyOrIndex (Key ''N'')])
   \<and> Ref_lookupRef (Ref ''a'' [Root, Definition ''N'']) lookupDocument [] (Ref ''a'' [Root])
     = Inr ([(''c'', JNum 3)], Ref ''a'' [Root, Definition ''N''])
   \<and> Ref_lookupRef (Ref ''a'' [Root, Definition ''M'']) lookupDocument [] (Ref ''a'' [Root])
     = Inl (NotAStringMap (Some (JNum 4)))
   \<and> Ref_lookupRef (Ref ''a'' [Root, Definition ''L'']) lookupDocument [] (Ref ''a'' [Root])
     = Inl (NotAStringMap None)
   \<and> Ref_lookupRef (Ref ''a'' [Root, Definition ''N'', Definition ''N''])
        lookupDocument [] (Ref ''a'' [Root])
     = Inl (NotAStringMap None)
   \<and> Ref_lookupRef (Ref ''a'' [Definition ''N'']) [] lookupDocument
        (Ref ''a'' [Root, KeyOrIndex (Key ''x'')])
     = Inr ([(''c'', JNum 3)], Ref ''a'' [Root, KeyOrIndex (Key ''x''), Definition ''N''])
   \<and> Ref_lookupRef (Ref ''a'' [Root, Type 0]) lookupDocument [] (Ref ''a'' [Root])
     = Inl (Panic [Txt ''Cannot look up path that indexes \"type\"''])
   \<and> Ref_lookupRef (Ref ''a'' [Root, Object]) lookupDocument [] (Ref ''a'' [Root])
     = Inl (Panic [Txt ''Cannot look up path that indexes \"object\"''])"
proof (intro conjI)
  show "Ref_lookupRef target root localSchema localRef
          = lookupRef_spec target root localSchema localRef"
    unfolding Ref_lookupRef_def lookupRef_spec_def by (rule lookup_walk)
  show "resolveWalk root w (pre @ Root # post) =
       (case resolveWalk root w pre of
          Inl err \<Rightarrow> Inl err
        | Inr w' \<Rightarrow> resolveWalk root (Some (JObj root), [Root]) post)"
    by (simp add: resolveWalk_append resolveStep_def split: sum.splits prod.splits)
  show "parseInt (show_nat n) = Some (int n)" by (rule parseInt_show_nat)
  show "lookup root addr (Some (JArr xs)) localPath (KeyOrIndex (Key (show_nat n)) # rest)
     = lookup root addr (if n < length xs then Some (xs ! n) else None)
         (localPath @ [KeyOrIndex (Key (show_nat n))]) rest"
    by (rule lookup_array_index)
qed code_simp+

text \<open>
  C7, as stated, fails: the path of the property \<open>definitions\<close> of an object schema,
  followed by \<open>items\<close>, is built by \<open>root\<close> and \<open>push\<close> alone, and the parse of its string
  form has a \<open>Definition\<close> element in place of the last two keys.
\<close>

theorem roundtrip_counterexample:
  "Ref_toString (Ref_push (Ref_push (Ref_root ''a'') [Key ''properties'', Key ''definitions''])
                  [Key ''items''])
     = ''#/properties/definitions/items''
   \<and> Ref_parse ''a'' (Some (JStr ''#/properties/definitions/items''))
     = Inr (Ref ''a'' [Root, KeyOrIndex (Key ''properties''), Definition ''items''])
   \<and> Ref_push (Ref_push (Ref_root ''a'') [Key ''properties'', Key ''definitions''])
        [Key ''items'']
     = Ref ''a'' [Root, KeyOrIndex (Key ''properties''), KeyOrIndex (Key ''definitions''),
                  KeyOrIndex (Key ''items'')]"
  by (simp add: Ref_toString_def Ref_push_def Ref_root_def pushElement_def elementToString_def
        key_string_def Ref_parse_def)

text \<open>
  C7, amended. The parse of the string form of a reference, under the address of the
  reference, gives the reference back exactly when its path is not empty and every
  element is \<open>Root\<close>, a \<open>Definition\<close> whose name has no \<open>/\<close>, or a \<open>KeyOrIndex\<close> whose
  key is a string that has no \<open>/\<close>, is not \<open>#\<close>, and is \<open>definitions\<close> in the last
  position only. This covers every reference built from \<open>root\<close> by \<open>push\<close> and
  \<open>pushDefinition\<close> with such keys and names.
\<close>

theorem roundtrip_parse_toString:
  "(Ref_parse (address r) (Some (JStr (Ref_toString r))) = Inr r)
   = (ref_path r \<noteq> [] \<and> reparsable (ref_path r))"
proof (cases "ref_path r = []")
  case True
  then show ?thesis by (cases r) (simp add: Ref_parse_def Ref_toString_def)
next
  case False
  then show ?thesis
    using parse_parts_of [of "ref_path r"]
    by (cases r) (simp add: Ref_parse_def split_toString)
qed

theorem roundtrip_parse_toString_witness:
  "Ref_parse ''a'' (Some (JStr (Ref_toString
      (Ref_push (Ref_pushDefinition (Ref_root ''a'') ''Node'') [Key ''properties'', Key ''next'']))))
   = Inr (Ref_push (Ref_pushDefinition (Ref_root ''a'') ''Node'') [Key ''properties'', Key ''next''])"
  using roundtrip_parse_toString
    [of "Ref_push (Ref_pushDefinition (Ref_root ''a'') ''Node'') [Key ''properties'', Key ''next'']"]
  by (simp add: Ref_push_def Ref_pushDefinition_def Ref_root_def pushElement_def)

text \<open>
  C8, as stated, fails for \<open>parse\<close>: the reference parsed from the relative pointer
  \<open>definitions/Node\<close> has the single element \<open>Definition Node\<close>, and no \<open>Root\<close>.
\<close>

theorem root_first_counterexample:
  "Ref_parse ''a'' (Some (JStr ''definitions/Node'')) = Inr (Ref ''a'' [Definition ''Node''])
   \<and> hd (ref_path (Ref ''a'' [Definition ''Node''])) \<noteq> Root"
  by (simp add: Ref_parse_def)

text \<open>
  C8, amended. A reference built from \<open>root\<close> by any sequence of \<open>push\<close>,
  \<open>pushDefinition\<close>, \<open>pushObject\<close> and \<open>pushType\<close> has the address given to \<open>root\<close> and
  a path that is \<open>Root\<close> followed by the pushed elements, so \<open>Root\<close> is first. Each of
  these operations returns a reference with the address of the receiver and the path of
  the receiver with the new elements at its end; the receiver is a value and stays as it
  is. Two references are equal exactly when their addresses and their paths are equal. A
  parsed reference has the base address, a path that is not empty, and \<open>Root\<close> first
  exactly when the first part of the string is \<open>#\<close>.
\<close>

theorem reference_invariants:
  "ref_path (construct source ops) = Root # concat (map op_elements ops)
   \<and> hd (ref_path (construct source ops)) = Root
   \<and> address (construct source ops) = source
   \<and> ref_path (applyOp r op) = ref_path r @ op_elements op
   \<and> address (applyOp r op) = address r
   \<and> ((r = r') = (address r = address r' \<and> ref_path r = ref_path r'))
   \<and> (case Ref_parse a (Some (JStr s)) of
         Inl err \<Rightarrow> False
       | Inr p \<Rightarrow>
           address p = a \<and> ref_path p \<noteq> []
           \<and> (hd (ref_path p) = Root) = (hd (js_split CHR ''/'' s) = ''#''))"
proof -
  have c: "ref_path (construct source ops) = Root # concat (map op_elements ops)"
    by (simp add: construct_def ref_path_foldl_applyOp Ref_root_def)
  have a: "address (construct source ops) = source"
    by (simp add: construct_def address_foldl_applyOp Ref_root_def)
  have e: "(r = r') = (address r = address r' \<and> ref_path r = ref_path r')"
    by (cases r; cases r') auto
  obtain p ps where s: "js_split CHR ''/'' s = p # ps"
    using js_split_nonempty [of "CHR ''/''" s] by (cases "js_split CHR ''/'' s") auto
  have p: "(case Ref_parse a (Some (JStr s)) of
         Inl err \<Rightarrow> False
       | Inr p \<Rightarrow>
           address p = a \<and> ref_path p \<noteq> []
           \<and> (hd (ref_path p) = Root) = (hd (js_split CHR ''/'' s) = ''#''))"
    using s by (simp add: Ref_parse_def parse_nonempty parse_head_root)
  show ?thesis using c a e p by (simp add: ref_path_applyOp address_applyOp)
qed

text \<open>
  C9, as stated, fails: in \<open>#/definitions/definitions\<close> the part \<open>definitions\<close> is the
  last one, and it is not kept as a \<open>KeyOrIndex\<close> element: the \<open>definitions\<close> before it
  takes it as the name of a \<open>Definition\<close> element.
\<close>

theorem parse_definitions_name_counterexample:
  "last (js_split CHR ''/'' ''#/definitions/definitions'') = ''definitions''
   \<and> Ref_parse ''a'' (Some (JStr ''#/definitions/definitions''))
     = Inr (Ref ''a'' [Root, Definition ''definitions''])
   \<and> KeyOrIndex (Key ''definitions'') \<notin> set [Root, Definition ''definitions'']"
  by (simp add: Ref_parse_def)

text \<open>
  C9, amended. \<open>parse\<close> turns a part \<open>definitions\<close> that its loop reaches into a
  \<open>Definition\<close> element, whose name is the part after it, when a part follows (first
  conjunct), and every \<open>Definition\<close> element of a parsed path comes from a part
  \<open>definitions\<close> and the part after it (second conjunct). When the string ends with a run
  of \<open>k\<close> parts \<open>definitions\<close>, after parts of which the last is another one, the loop
  pairs them up from the left: the run gives \<open>k div 2\<close> elements \<open>Definition definitions\<close>,
  and the last part is kept as a \<open>KeyOrIndex\<close> element exactly when \<open>k\<close> is odd (third
  conjunct). So a last part \<open>definitions\<close> is a \<open>KeyOrIndex\<close> element when the part before
  it is not \<open>definitions\<close>, as in \<open>#/definitions\<close>, and the name of a \<open>Definition\<close> element
  when the run that it ends has even length.
\<close>

theorem parse_definitions_last:
  "parseElements (''definitions'' # q # ps) = Definition q # parseElements ps
   \<and> (Definition n \<in> set (parseElements parts) \<longrightarrow>
        (\<exists>i. Suc i < length parts \<and> parts ! i = ''definitions'' \<and> parts ! Suc i = n))
   \<and> (pre = [] \<or> last pre \<noteq> ''definitions'' \<longrightarrow>
        parseElements (pre @ replicate k ''definitions'')
        = parseElements pre @ replicate (k div 2) (Definition ''definitions'')
          @ (if odd k then [KeyOrIndex (Key ''definitions'')] else []))
   \<and> Ref_parse a (Some (JStr ''#/definitions''))
     = Inr (Ref a [Root, KeyOrIndex (Key ''definitions'')])
   \<and> Ref_parse a (Some (JStr ''#/definitions/Node'')) = Inr (Ref a [Root, Definition ''Node''])"
proof (intro conjI impI)
  assume "Definition n \<in> set (parseElements parts)"
  then show "\<exists>i. Suc i < length parts \<and> parts ! i = ''definitions'' \<and> parts ! Suc i = n"
    by (rule parse_Definition_from)
next
  assume "pre = [] \<or> last pre \<noteq> ''definitions''"
  then show "parseElements (pre @ replicate k ''definitions'')
        = parseElements pre @ replicate (k div 2) (Definition ''definitions'')
          @ (if odd k then [KeyOrIndex (Key ''definitions'')] else [])"
    by (simp only: parse_append parse_definitions_run)
qed (simp_all add: Ref_parse_def)

theorem parse_definitions_last_witness:
  "Definition ''Node'' \<in> set (parseElements [''#'', ''definitions'', ''Node''])
   \<and> Suc 1 < length [''#'', ''definitions'', ''Node'']
   \<and> [''#'', ''definitions'', ''Node''] ! 1 = ''definitions''
   \<and> last [''#'', ''x''] \<noteq> ''definitions''
   \<and> parseElements ([''#'', ''x''] @ replicate 3 ''definitions'')
     = [Root, KeyOrIndex (Key ''x''), Definition ''definitions'', KeyOrIndex (Key ''definitions'')]
   \<and> parseElements ([''#'', ''x''] @ replicate 2 ''definitions'')
     = [Root, KeyOrIndex (Key ''x''), Definition ''definitions'']"
  using parse_definitions_last [of _ _ "''Node''" "[''#'', ''definitions'', ''Node'']" "[''#'', ''x'']" 3]
    parse_definitions_last [of _ _ _ _ "[''#'', ''x'']" 2]
  by (simp add: numeral_3_eq_3 numeral_2_eq_2)

text \<open>
  C10. \<open>name\<close> returns \<open>Something\<close>, and does not fail, when every element of the path
  is a \<open>KeyOrIndex\<close> whose key is a string that is not all digits: the scan runs off the
  front of the path. A parsed reference is in that state when no part of its string is
  \<open>#\<close>, \<open>definitions\<close> or all digits.
\<close>

theorem name_Something:
  "((\<forall>e\<in>set (ref_path r). \<exists>k. e = KeyOrIndex (Key k) \<and> \<not> numberRegexp k)
      \<longrightarrow> Ref_name r = Inr ''Something'')
   \<and> ((\<forall>p\<in>set (js_split CHR ''/'' s). p \<noteq> ''#'' \<and> p \<noteq> ''definitions'' \<and> \<not> numberRegexp p)
      \<longrightarrow> (case Ref_parse a (Some (JStr s)) of
             Inl err \<Rightarrow> False
           | Inr p \<Rightarrow> Ref_name p = Inr ''Something''))"
proof (intro conjI impI)
  assume "\<forall>e\<in>set (ref_path r). \<exists>k. e = KeyOrIndex (Key k) \<and> \<not> numberRegexp k"
  then show "Ref_name r = Inr ''Something''"
    unfolding Ref_name_def by (intro name_loop_skips) simp
next
  assume h: "\<forall>p\<in>set (js_split CHR ''/'' s). p \<noteq> ''#'' \<and> p \<noteq> ''definitions'' \<and> \<not> numberRegexp p"
  then have "parseElements (js_split CHR ''/'' s)
             = map (\<lambda>p. KeyOrIndex (Key p)) (js_split CHR ''/'' s)"
    by (intro parse_plain) simp
  moreover have "name_loop (rev (map (\<lambda>p. KeyOrIndex (Key p)) (js_split CHR ''/'' s)))
                 = Inr ''Something''"
    using h by (intro name_loop_skips) auto
  ultimately show "case Ref_parse a (Some (JStr s)) of
             Inl err \<Rightarrow> False
           | Inr p \<Rightarrow> Ref_name p = Inr ''Something''"
    by (simp add: Ref_parse_def Ref_name_def)
qed

theorem name_Something_witness:
  "js_split CHR ''/'' ''foo/bar'' = [''foo'', ''bar'']
   \<and> \<not> numberRegexp ''foo'' \<and> \<not> numberRegexp ''bar''
   \<and> Ref_parse ''a'' (Some (JStr ''foo/bar''))
     = Inr (Ref ''a'' [KeyOrIndex (Key ''foo''), KeyOrIndex (Key ''bar'')])
   \<and> Ref_name (Ref ''a'' [KeyOrIndex (Key ''foo''), KeyOrIndex (Key ''bar'')])
     = Inr ''Something''"
  using name_Something [of "Ref ''a'' [KeyOrIndex (Key ''foo''), KeyOrIndex (Key ''bar'')]" "''foo/bar''" "''a''"]
  by (simp add: Ref_parse_def numberRegexp_def is_digit_def)

section \<open>What the conversion keeps: the rules\<close>

lemma keeps_refl: "k \<le> length (graph st) \<Longrightarrow> keeps k st st"
  by (simp add: keeps_def)


lemma keeps_trans: "keeps k st0 st1 \<Longrightarrow> keeps k st1 st2 \<Longrightarrow> keeps k st0 st2"
  unfolding keeps_def by (auto intro: map_le_trans)

lemma agreeI:
  "(\<And>st. keeps k st0 st \<Longrightarrow> m st = m' st)
   \<Longrightarrow> (\<And>st x st'. keeps k st0 st \<Longrightarrow> m st = Return (x, st') \<Longrightarrow> keeps k st0 st')
   \<Longrightarrow> agree k st0 m m'"
  unfolding agree_def by blast

lemma agree_returnM: "agree k st0 (returnM x) (returnM x)"
  by (simp add: agree_def returnM_def)

lemma agree_throwM: "agree k st0 (throwM e) (throwM e)"
  by (simp add: agree_def throwM_def)

lemma agree_liftE: "agree k st0 (liftE r) (liftE r)"
  by (cases r) (simp_all add: liftE_def agree_returnM agree_throwM)

lemma agree_bindM_result:
  assumes a: "agree k st0 m m'"
    and p: "\<And>st x st'. keeps k st0 st \<Longrightarrow> m st = Return (x, st') \<Longrightarrow> P x"
    and b: "\<And>x. P x \<Longrightarrow> agree k st0 (f x) (f' x)"
  shows "agree k st0 (bindM m f) (bindM m' f')"
proof (rule agreeI)
  fix st
  assume k: "keeps k st0 st"
  show "bindM m f st = bindM m' f' st"
  proof (cases "m st")
    case (Return r)
    obtain x st1 where r: "r = (x, st1)" by (cases r)
    have "keeps k st0 st1" using a k Return r by (simp add: agree_def)
    moreover have "P x" using p k Return r by simp
    ultimately have "f x st1 = f' x st1" using b [of x] by (simp add: agree_def)
    moreover have "m' st = Return (x, st1)" using a k Return r by (simp add: agree_def)
    ultimately show ?thesis using Return r by (simp add: bindM_def)
  next
    case OutOfFuel
    moreover have "m' st = OutOfFuel" using a k OutOfFuel by (simp add: agree_def)
    ultimately show ?thesis by (simp add: bindM_def)
  next
    case (Throw e)
    moreover have "m' st = Throw e" using a k Throw by (simp add: agree_def)
    ultimately show ?thesis by (simp add: bindM_def)
  qed
next
  fix st y st'
  assume k: "keeps k st0 st" and r: "bindM m f st = Return (y, st')"
  from r obtain x st1 where m: "m st = Return (x, st1)" and f: "f x st1 = Return (y, st')"
    by (auto simp: bindM_def split: outcome.splits)
  have "keeps k st0 st1" using a k m by (simp add: agree_def)
  moreover have "P x" using p k m by simp
  ultimately show "keeps k st0 st'" using b [of x] f by (simp add: agree_def)
qed

lemma agree_bindM:
  "agree k st0 m m' \<Longrightarrow> (\<And>x. agree k st0 (f x) (f' x))
   \<Longrightarrow> agree k st0 (bindM m f) (bindM m' f')"
  by (rule agree_bindM_result [where P = "\<lambda>x. True"]) simp_all

lemma agree_mapM:
  "(\<And>x. agree k st0 (f x) (f' x)) \<Longrightarrow> agree k st0 (mapM f xs) (mapM f' xs)"
  by (induction xs) (auto intro!: agree_bindM agree_returnM)

lemma keeps_addType:
  "keeps k st0 st \<Longrightarrow> keeps k st0 (st\<lparr>graph := graph st @ [n]\<rparr>)"
  by (simp add: keeps_def)

lemma agree_addType: "agree k st0 (addType n) (addType n)"
proof (rule agreeI)
  fix st x st'
  assume "keeps k st0 st" and "addType n st = Return (x, st')"
  then show "keeps k st0 st'" by (auto simp: addType_def keeps_def)
qed simp

lemma agree_bind_addType:
  assumes "\<And>u. k \<le> u \<Longrightarrow> agree k st0 (f u) (f' u)"
  shows "agree k st0 (bindM (addType n) f) (bindM (addType n) f')"
proof (rule agree_bindM_result [where P = "\<lambda>u. k \<le> u"])
  show "agree k st0 (addType n) (addType n)" by (rule agree_addType)
next
  fix st x st'
  assume "keeps k st0 st" and "addType n st = Return (x, st')"
  then show "k \<le> x" by (auto simp: addType_def keeps_def)
next
  fix x :: nat
  assume "k \<le> x"
  then show "agree k st0 (f x) (f' x)" by (rule assms)
qed

lemma agree_setSetOperationMembers:
  "k \<le> u \<Longrightarrow> agree k st0 (setSetOperationMembers u ms) (setSetOperationMembers u ms)"
proof (rule agreeI)
  fix st x st'
  assume "k \<le> u" and "keeps k st0 st" and "setSetOperationMembers u ms st = Return (x, st')"
  then show "keeps k st0 st'" by (auto simp: setSetOperationMembers_def keeps_def)
qed simp

lemma agree_setTypeForPath: "agree k st0 (setTypeForPath p t) (setTypeForPath p t)"
proof -
  have "keeps k st0 (st\<lparr>typeForPath := (typeForPath st)(Ref_immutable p \<mapsto> t)\<rparr>)"
    if a: "keeps k st0 st"
      and b: "typeForPath st (Ref_immutable p) = None \<or> typeForPath st (Ref_immutable p) = Some t"
    for st
  proof -
    have "typeForPath st0 q = Some h \<Longrightarrow> ((typeForPath st)(Ref_immutable p \<mapsto> t)) q = Some h"
      for q h
      using a b by (auto simp: keeps_def map_le_def dom_def)
    then have "typeForPath st0 \<subseteq>\<^sub>m (typeForPath st)(Ref_immutable p \<mapsto> t)"
      unfolding map_le_def by (metis domD)
    then show ?thesis using a by (simp add: keeps_def)
  qed
  then show ?thesis
    unfolding agree_def setTypeForPath_def by (auto split: option.splits)
qed

lemmas agree_basic =
  agree_bindM agree_mapM agree_liftE agree_returnM agree_throwM agree_addType
  agree_setTypeForPath

lemmas builder_defs =
  getPrimitiveType_def getStringType_def getEnumType_def getArrayType_def getMapType_def
  getUniqueClassType_def getUnionType_def getUniqueUnionType_def getUniqueIntersectionType_def

lemma agree_convD: "agree_conv k st0 rec rec' \<Longrightarrow> agree k st0 (rec schema path) (rec' schema path)"
  by (simp add: agree_conv_def)

lemma agree_makeClass:
  assumes "agree_conv k st0 rec rec'"
  shows "agree k st0 (makeClass rec path props req) (makeClass rec' path props req)"
  unfolding makeClass_def getUniqueClassType_def
  by (auto intro!: agree_basic agree_convD [OF assms])

lemma agree_makeMap:
  assumes "agree_conv k st0 rec rec'"
  shows "agree k st0 (makeMap rec path additional) (makeMap rec' path additional)"
  unfolding makeMap_def getMapType_def
  by (auto intro!: agree_basic agree_convD [OF assms])

lemma agree_pushClass:
  assumes "agree_conv k st0 rec rec'"
  shows "agree k st0 (pushClass rec schema path required) (pushClass rec' schema path required)"
  unfolding pushClass_def
  by (auto intro!: agree_bindM agree_liftE agree_returnM agree_makeClass [OF assms]
      split: option.splits)

lemma agree_pushAdditional:
  assumes "agree_conv k st0 rec rec'"
  shows "agree k st0 (pushAdditional rec schema path required)
           (pushAdditional rec' schema path required)"
  unfolding pushAdditional_def
  by (auto intro!: agree_bindM agree_liftE agree_returnM agree_makeClass [OF assms]
        agree_makeMap [OF assms]
      split: option.splits)

lemma agree_pushMapOfAny: "agree k st0 (pushMapOfAny ts) (pushMapOfAny ts)"
  unfolding pushMapOfAny_def builder_defs
  by (auto intro!: agree_bindM agree_returnM agree_addType)

lemma agree_fromTypeName_object:
  assumes "agree_conv k st0 rec rec'"
  shows "agree k st0 (fromTypeName_object rec schema path) (fromTypeName_object rec' schema path)"
  unfolding fromTypeName_object_def builder_defs
  by (auto intro!: agree_bindM agree_liftE agree_bind_addType agree_setTypeForPath
        agree_returnM agree_pushClass [OF assms] agree_pushAdditional [OF assms]
        agree_pushMapOfAny agree_setSetOperationMembers)

lemma agree_fromTypeName:
  assumes "agree_conv k st0 rec rec'"
  shows "agree k st0 (fromTypeName rec schema path typeName) (fromTypeName rec' schema path typeName)"
  unfolding fromTypeName_def builder_defs
  by (auto intro!: agree_basic agree_convD [OF assms] agree_fromTypeName_object [OF assms]
      split: option.splits)

lemma agree_makeTypesFromCases:
  assumes "agree_conv k st0 rec rec'"
  shows "agree k st0 (makeTypesFromCases rec path cases kind) (makeTypesFromCases rec' path cases kind)"
  unfolding makeTypesFromCases_def
  by (auto intro!: agree_basic agree_convD [OF assms] split: option.splits json.splits)

lemma agree_convertOneOrAnyOf:
  assumes "agree_conv k st0 rec rec'"
  shows "agree k st0 (convertOneOrAnyOf rec path cases kind) (convertOneOrAnyOf rec' path cases kind)"
  unfolding convertOneOrAnyOf_def builder_defs
  by (auto intro!: agree_bindM agree_bind_addType agree_returnM agree_setSetOperationMembers
        agree_makeTypesFromCases [OF assms])

lemma agree_intersectionMembers:
  assumes "agree_conv k st0 rec rec'"
  shows "agree k st0 (intersectionMembers rec schema path jsonTypes)
           (intersectionMembers rec' schema path jsonTypes)"
  unfolding intersectionMembers_def builder_defs
  by (auto intro!: agree_bindM agree_bind_addType agree_returnM agree_setSetOperationMembers
        agree_mapM agree_makeTypesFromCases [OF assms] agree_convertOneOrAnyOf [OF assms]
        agree_fromTypeName [OF assms]
      split: option.splits)

lemma agree_convertEnum: "agree k st0 (convertEnum path enum) (convertEnum path enum)"
  unfolding convertEnum_def builder_defs Let_def
  by (auto intro!: agree_basic)

lemma agree_convertIntersection:
  assumes "agree_conv k st0 rec rec'"
  shows "agree k st0 (convertIntersection rec schema path) (convertIntersection rec' schema path)"
  unfolding convertIntersection_def builder_defs
  by (auto intro!: agree_bindM agree_liftE agree_bind_addType agree_returnM
        agree_setSetOperationMembers agree_setTypeForPath agree_intersectionMembers [OF assms])

lemma agree_convertToType:
  assumes "agree_conv k st0 rec rec'"
  shows "agree k st0 (convertToType rec root schema path) (convertToType rec' root schema path)"
  unfolding convertToType_def
  by (auto intro!: agree_basic agree_convD [OF assms] agree_convertEnum
        agree_convertIntersection [OF assms]
      split: option.splits json.splits)

lemma agree_toType_body:
  assumes "agree_conv k st0 rec rec'"
  shows "agree k st0 (toType_body rec root schema path) (toType_body rec' root schema path)"
proof -
  let ?c = "\<lambda>r. bindM (convertToType r root schema path) (\<lambda>result.
                bindM (setTypeForPath path result) (\<lambda>_. returnM result))"
  have c: "agree k st0 (?c rec) (?c rec')"
    by (intro agree_basic agree_convertToType [OF assms])
  have b: "toType_body r root schema path st =
           (case typeForPath st (Ref_immutable path) of
              Some maybeType \<Rightarrow> Return (maybeType, st)
            | None \<Rightarrow> ?c r st)" for r st
    by (simp add: toType_body_def)
  show ?thesis
  proof (rule agreeI)
    fix st
    assume "keeps k st0 st"
    then have "?c rec st = ?c rec' st" using c by (simp add: agree_def)
    then show "toType_body rec root schema path st = toType_body rec' root schema path st"
      unfolding b by (simp split: option.splits)
  next
    fix st x st'
    assume k: "keeps k st0 st" and r: "toType_body rec root schema path st = Return (x, st')"
    show "keeps k st0 st'"
    proof (cases "typeForPath st (Ref_immutable path)")
      case None
      then have "?c rec st = Return (x, st')" using r unfolding b by simp
      then show ?thesis using c k unfolding agree_def by blast
    next
      case (Some t)
      then have "st' = st" using r unfolding b by simp
      then show ?thesis using k by simp
    qed
  qed
qed

lemma agree_conv_toType: "agree_conv k st0 (toType fuel root) (toType fuel root)"
proof (induction fuel)
  case 0
  show ?case by (simp add: agree_conv_def agree_def)
next
  case (Suc fuel)
  then show ?case
    unfolding agree_conv_def toType.simps by (intro allI agree_toType_body) (simp add: agree_conv_def)
qed

section \<open>Running an action\<close>

lemma bindM_Return:
  "(bindM m f st = Return y) = (\<exists>x st1. m st = Return (x, st1) \<and> f x st1 = Return y)"
  by (auto simp: bindM_def split: outcome.splits)

lemma setTypeForPath_Return:
  "setTypeForPath path t st = Return (u, st') \<Longrightarrow>
   st' = st\<lparr>typeForPath := (typeForPath st)(Ref_immutable path \<mapsto> t)\<rparr>
   \<and> (typeForPath st (Ref_immutable path) = None \<or> typeForPath st (Ref_immutable path) = Some t)"
  by (auto simp: setTypeForPath_def split: option.splits if_splits)

lemma setTypeForPath_rebind:
  "typeForPath st (Ref_immutable path) = Some h \<Longrightarrow> t \<noteq> h \<Longrightarrow>
   setTypeForPath path t st = Throw (Panic [Txt ''Trying to set path again to different type''])"
  by (simp add: setTypeForPath_def)

lemma toType_body_hit:
  "typeForPath st (Ref_immutable path) = Some h \<Longrightarrow>
   toType_body rec root schema path st = Return (h, st)"
  by (simp add: toType_body_def)

lemma toType_body_binds:
  "toType_body rec root schema path st = Return (t, st') \<Longrightarrow>
   typeForPath st' (Ref_immutable path) = Some t"
proof (cases "typeForPath st (Ref_immutable path)")
  case None
  assume "toType_body rec root schema path st = Return (t, st')"
  then obtain st1 u where "setTypeForPath path t st1 = Return (u, st')"
    using None by (auto simp: toType_body_def bindM_Return returnM_def)
  then show ?thesis using setTypeForPath_Return by fastforce
next
  case (Some h)
  assume "toType_body rec root schema path st = Return (t, st')"
  then show ?thesis using Some by (simp add: toType_body_def)
qed

lemma toType_binds:
  "toType fuel root schema path st = Return (t, st') \<Longrightarrow>
   typeForPath st' (Ref_immutable path) = Some t"
  by (cases fuel) (auto dest: toType_body_binds)

lemma toType_keeps:
  "toType fuel root schema path st = Return (t, st') \<Longrightarrow> k \<le> length (graph st) \<Longrightarrow>
   keeps k st st'"
  using agree_conv_toType [of k st fuel root] keeps_refl [of k st]
  unfolding agree_conv_def agree_def by blast

lemma setTypeForPath_keeps:
  "setTypeForPath path t st = Return (u, st') \<Longrightarrow> k \<le> length (graph st) \<Longrightarrow> keeps k st st'"
  using agree_setTypeForPath [of k st path t] keeps_refl [of k st]
  unfolding agree_def by blast

lemma returnedD: "returned r \<Longrightarrow> \<exists>x st'. r = Return (x, st')"
  by (cases r) (auto simp: returned_def)

section \<open>The memo table\<close>

text \<open>
  C1. The memo table is written once for each key. When the key of a path is bound,
  \<open>toType\<close> returns the bound handle and the state as it is, whatever the \<open>toType\<close> it
  would call: it does not recurse. \<open>setTypeForPath\<close> with a handle other than the bound
  one throws, and binds nothing. A \<open>setTypeForPath\<close> that returns, and a \<open>toType\<close> that
  returns (with any fuel, so every call within a run), leave every binding as it was
  and bind their own path to the handle they were given, or return. The key is the path
  of the reference, so structurally equal references have the same key.
\<close>

theorem memo_write_once:
  "(typeForPath st (Ref_immutable path) = Some h \<longrightarrow>
      toType_body rec root schema path st = Return (h, st)
      \<and> toType (Suc fuel) root schema path st = Return (h, st))
   \<and> (typeForPath st (Ref_immutable path) = Some h \<and> t \<noteq> h \<longrightarrow>
      setTypeForPath path t st
        = Throw (Panic [Txt ''Trying to set path again to different type'']))
   \<and> (setTypeForPath path t st = Return (u, st') \<longrightarrow>
      typeForPath st \<subseteq>\<^sub>m typeForPath st' \<and> typeForPath st' (Ref_immutable path) = Some t)
   \<and> (toType fuel root schema path st = Return (t, st') \<longrightarrow>
      typeForPath st \<subseteq>\<^sub>m typeForPath st' \<and> typeForPath st' (Ref_immutable path) = Some t)"
proof (intro conjI impI)
  assume "typeForPath st (Ref_immutable path) = Some h"
  then show "toType_body rec root schema path st = Return (h, st)"
    and "toType (Suc fuel) root schema path st = Return (h, st)"
    by (simp_all add: toType_body_hit)
next
  assume "typeForPath st (Ref_immutable path) = Some h \<and> t \<noteq> h"
  then show "setTypeForPath path t st
        = Throw (Panic [Txt ''Trying to set path again to different type''])"
    by (simp add: setTypeForPath_rebind)
next
  assume r: "setTypeForPath path t st = Return (u, st')"
  then show "typeForPath st \<subseteq>\<^sub>m typeForPath st'"
    using setTypeForPath_keeps [of path t st u st' 0] by (simp add: keeps_def)
  show "typeForPath st' (Ref_immutable path) = Some t"
    using setTypeForPath_Return [OF r] by simp
next
  assume r: "toType fuel root schema path st = Return (t, st')"
  then show "typeForPath st \<subseteq>\<^sub>m typeForPath st'"
    using toType_keeps [of fuel root schema path st t st' 0] by (simp add: keeps_def)
  show "typeForPath st' (Ref_immutable path) = Some t"
    using r by (rule toType_binds)
qed

theorem memo_write_once_witness:
  "typeForPath \<lparr>graph = [IntersectionType None], topLevels = [], typeForPath = [[Root] \<mapsto> 0]\<rparr>
      (Ref_immutable (Ref_root ''a'')) = Some 0
   \<and> toType (Suc 0) [] [(''type'', JStr ''string'')] (Ref_root ''a'')
        \<lparr>graph = [IntersectionType None], topLevels = [], typeForPath = [[Root] \<mapsto> 0]\<rparr>
      = Return (0, \<lparr>graph = [IntersectionType None], topLevels = [], typeForPath = [[Root] \<mapsto> 0]\<rparr>)
   \<and> (1::nat) \<noteq> 0
   \<and> setTypeForPath (Ref_root ''a'') 1
        \<lparr>graph = [IntersectionType None], topLevels = [], typeForPath = [[Root] \<mapsto> 0]\<rparr>
      = Throw (Panic [Txt ''Trying to set path again to different type''])
   \<and> (\<exists>st'. setTypeForPath (Ref_root ''a'') 0
        \<lparr>graph = [IntersectionType None], topLevels = [], typeForPath = [[Root] \<mapsto> 0]\<rparr>
          = Return ((), st')
        \<and> typeForPath st' [Root] = Some 0)
   \<and> (\<exists>t st'. toType 2 [] [(''type'', JStr ''string'')] (Ref_root ''a'')
                 \<lparr>graph = [], topLevels = [], typeForPath = Map.empty\<rparr>
               = Return (t, st')
             \<and> typeForPath st' [Root] = Some t)"
proof -
  let ?st = "\<lparr>graph = [IntersectionType None], topLevels = [], typeForPath = [[Root] \<mapsto> 0]\<rparr>"
  let ?init = "\<lparr>graph = [], topLevels = [], typeForPath = Map.empty\<rparr>"
  have k: "typeForPath ?st (Ref_immutable (Ref_root ''a'')) = Some 0"
    by (simp add: Ref_immutable_def Ref_root_def)
  have a: "toType (Suc 0) [] [(''type'', JStr ''string'')] (Ref_root ''a'') ?st = Return (0, ?st)"
    using memo_write_once [of ?st "Ref_root ''a''" 0 _ "[]" "[(''type'', JStr ''string'')]" 0] k
    by blast
  have b: "setTypeForPath (Ref_root ''a'') 1 ?st
           = Throw (Panic [Txt ''Trying to set path again to different type''])"
    using memo_write_once [of ?st "Ref_root ''a''" 0 _ _ _ _ 1] k by simp
  have "\<exists>st'. setTypeForPath (Ref_root ''a'') 0 ?st = Return ((), st')"
    by (simp add: setTypeForPath_def Ref_immutable_def Ref_root_def)
  then obtain st1 where c1: "setTypeForPath (Ref_root ''a'') 0 ?st = Return ((), st1)" by blast
  have c: "typeForPath st1 [Root] = Some 0"
    using memo_write_once [of ?st "Ref_root ''a''" _ _ _ _ _ 0 "()" st1] c1
    by (simp add: Ref_immutable_def Ref_root_def)
  have "returned (toType 2 [] [(''type'', JStr ''string'')] (Ref_root ''a'') ?init)"
    by code_simp
  then have "\<exists>t st'. toType 2 [] [(''type'', JStr ''string'')] (Ref_root ''a'') ?init = Return (t, st')"
    by (rule returnedD)
  then obtain t st2 where
    d1: "toType 2 [] [(''type'', JStr ''string'')] (Ref_root ''a'') ?init = Return (t, st2)"
    by blast
  have d: "typeForPath st2 [Root] = Some t"
    using memo_write_once [of _ "Ref_root ''a''" _ _ "[]" "[(''type'', JStr ''string'')]" 2 t _ st2] d1
    by (simp add: Ref_immutable_def Ref_root_def)
  show ?thesis using k a b c1 c d1 d by blast
qed









lemma bindM_liftE: "bindM (liftE r) f st = (case r of Inl e \<Rightarrow> Throw e | Inr x \<Rightarrow> f x st)"
  by (cases r) (simp_all add: bindM_def liftE_def throwM_def returnM_def)

lemma bindM_addType: "bindM (addType n) f st = f (length (graph st)) (st\<lparr>graph := graph st @ [n]\<rparr>)"
  by (simp add: bindM_def addType_def)









section \<open>Forward declaration of the intersection\<close>





lemma addType_apply: "addType n st = Return (length (graph st), st\<lparr>graph := graph st @ [n]\<rparr>)"
  by (simp add: addType_def)

lemma returnM_apply: "returnM x st = Return (x, st)"
  by (simp add: returnM_def)

lemma throwM_apply: "throwM e st = Throw e"
  by (simp add: throwM_def)

lemma OrderedSet_distinct: "distinct (OrderedSet xs)"
  by (simp add: OrderedSet_def)

lemma OrderedSet_set: "set (OrderedSet xs) = set xs"
  by (simp add: OrderedSet_def)

lemma allStrings_enum:
  "\<not> list_ex (\<lambda>c. c \<noteq> JNull \<and> \<not> typeof_string c) enum \<Longrightarrow>
   allStrings msg (filter (\<lambda>c. c \<noteq> JNull) enum) = Inr (strings_in enum)"
proof (induction enum)
  case Nil
  show ?case by simp
next
  case (Cons c cs)
  then show ?case by (cases c) (simp_all add: typeof_string_def)
qed

lemma non_string_cases:
  "(filter (\<lambda>c. \<not> typeof_string c) (filter (\<lambda>c. c \<noteq> JNull) enum) \<noteq> [])
   = list_ex (\<lambda>c. c \<noteq> JNull \<and> \<not> typeof_string c) enum"
  by (induction enum) auto

lemma convertEnum_result:
  "convertEnum path enum st =
     (if list_ex (\<lambda>c. c \<noteq> JNull \<and> \<not> typeof_string c) enum
      then Throw (Panic [Txt (''Non-string enum cases are not supported, at '' @ Ref_toString path)])
      else if JNull \<in> set enum
      then Return (length (graph st) + 2,
             st\<lparr>graph := graph st @
                    [EnumType (OrderedSet (strings_in enum)), PrimitiveType ''null'',
                     UnionType (Some [length (graph st), length (graph st) + 1])]\<rparr>)
      else Return (length (graph st),
             st\<lparr>graph := graph st @ [EnumType (OrderedSet (strings_in enum))]\<rparr>))"
proof (cases "list_ex (\<lambda>c. c \<noteq> JNull \<and> \<not> typeof_string c) enum")
  case True
  then have "filter (\<lambda>c. \<not> typeof_string c) (filter (\<lambda>c. c \<noteq> JNull) enum) \<noteq> []"
    using non_string_cases [of enum] by blast
  then have "convertEnum path enum
        = throwM (Panic [Txt (''Non-string enum cases are not supported, at '' @ Ref_toString path)])"
    unfolding convertEnum_def Let_def by (rule if_P)
  then show ?thesis using True by (simp add: throwM_def)
next
  case False
  have s: "checkStringArray (Some (JArr (filter (\<lambda>c. c \<noteq> JNull) enum))) = Inr (strings_in enum)"
    using False by (simp add: checkStringArray_def allStrings_enum)
  have "\<not> filter (\<lambda>c. \<not> typeof_string c) (filter (\<lambda>c. c \<noteq> JNull) enum) \<noteq> []"
    using False non_string_cases [of enum] by blast
  then have "convertEnum path enum =
           bindM (liftE (checkStringArray (Some (JArr (filter (\<lambda>c. c \<noteq> JNull) enum))))) (\<lambda>strings.
           bindM (getEnumType (OrderedSet strings)) (\<lambda>tref.
           if JNull \<in> set enum
           then bindM (getPrimitiveType ''null'') (\<lambda>n. getUnionType (OrderedSet [tref, n]))
           else returnM tref))"
    unfolding convertEnum_def Let_def by (rule if_not_P)
  then show ?thesis
    using False
    by (simp add: s bindM_liftE bindM_addType
          getEnumType_def getPrimitiveType_def getUnionType_def addType_apply returnM_apply
          OrderedSet_def [of "[_, _]"])
qed


lemma OrderedSet_Cons: "OrderedSet (x # xs) = x # filter (\<lambda>y. y \<noteq> x) (OrderedSet xs)"
proof -
  have "remdups (ys @ [x]) = filter (\<lambda>y. y \<noteq> x) (remdups ys) @ [x]" for ys
    by (induction ys) auto
  then show ?thesis by (simp add: OrderedSet_def rev_filter)
qed

lemma strings_in_set: "set (strings_in cs) = {s. JStr s \<in> set cs}"
proof (induction cs)
  case Nil
  show ?case by simp
next
  case (Cons c cs)
  then show ?case by (cases c) auto
qed

lemma convertToType_enum:
  "field schema ''$ref'' = None \<Longrightarrow> field schema ''enum'' = Some (JArr enum) \<Longrightarrow>
   convertToType rec root schema path = convertEnum path enum"
  by (simp add: convertToType_def)

section \<open>The enum branch\<close>

text \<open>
  The dispatch of \<open>convertToType\<close> looks at \<open>$ref\<close> first, as the list of its rules in the
  spec (4.3) has it: a schema with a \<open>$ref\<close> to an integer definition and an \<open>enum\<close> that
  is an array converts to the integer type of the definition, and the rule for \<open>enum\<close> is
  not reached.
\<close>

theorem ref_before_enum:
  "field [(''$ref'', JStr ''#/definitions/x''), (''enum'', JArr [JStr ''a'']),
          (''definitions'', JObj [(''x'', JObj [(''type'', JStr ''integer'')])])] ''enum''
     = Some (JArr [JStr ''a''])
   \<and> (case addTypesInSchema 3
             (Some (JObj [(''$ref'', JStr ''#/definitions/x''), (''enum'', JArr [JStr ''a'']),
                (''definitions'', JObj [(''x'', JObj [(''type'', JStr ''integer'')])])]))
             ''a'' [(''T'', Ref_root ''a'')] initial_state of
         Return (u, st') \<Rightarrow>
           graph st' = [IntersectionType (Some [1]), PrimitiveType ''integer'']
           \<and> topLevels st' = [(''T'', 0)]
       | _ \<Rightarrow> False)"
  by code_simp

text \<open>
  C4. The rule for \<open>enum\<close> is the second of the dispatch, reached by a schema with no
  \<open>$ref\<close>. For every such schema whose \<open>enum\<close> is an array: when a case
  is neither \<open>null\<close> nor a string, the conversion throws, with a message that ends with
  the string form of the path, and nothing is allocated. Otherwise an enum node is added
  over the strings of the array, each once, in the order of their first occurrence; the
  result is that node when the array has no \<open>null\<close>, and when it has one, a union of
  exactly the enum node and a new \<open>null\<close> primitive.
\<close>

theorem enum_conversion:
  "(field schema ''$ref'' = None \<and> field schema ''enum'' = Some (JArr enum) \<longrightarrow>
      convertToType rec root schema path st =
        (if list_ex (\<lambda>c. c \<noteq> JNull \<and> \<not> typeof_string c) enum
         then Throw (Panic [Txt (''Non-string enum cases are not supported, at ''
                                  @ Ref_toString path)])
         else if JNull \<in> set enum
         then Return (length (graph st) + 2,
                st\<lparr>graph := graph st @
                       [EnumType (OrderedSet (strings_in enum)), PrimitiveType ''null'',
                        UnionType (Some [length (graph st), length (graph st) + 1])]\<rparr>)
         else Return (length (graph st),
                st\<lparr>graph := graph st @ [EnumType (OrderedSet (strings_in enum))]\<rparr>)))
   \<and> distinct (OrderedSet (strings_in enum))
   \<and> set (OrderedSet (strings_in enum)) = {s. JStr s \<in> set enum}
   \<and> OrderedSet (x # xs) = x # filter (\<lambda>y. y \<noteq> x) (OrderedSet xs)"
proof (intro conjI impI)
  assume "field schema ''$ref'' = None \<and> field schema ''enum'' = Some (JArr enum)"
  then have "convertToType rec root schema path = convertEnum path enum"
    by (intro convertToType_enum) simp_all
  then show "convertToType rec root schema path st =
        (if list_ex (\<lambda>c. c \<noteq> JNull \<and> \<not> typeof_string c) enum
         then Throw (Panic [Txt (''Non-string enum cases are not supported, at ''
                                  @ Ref_toString path)])
         else if JNull \<in> set enum
         then Return (length (graph st) + 2,
                st\<lparr>graph := graph st @
                       [EnumType (OrderedSet (strings_in enum)), PrimitiveType ''null'',
                        UnionType (Some [length (graph st), length (graph st) + 1])]\<rparr>)
         else Return (length (graph st),
                st\<lparr>graph := graph st @ [EnumType (OrderedSet (strings_in enum))]\<rparr>))"
    by (simp only: convertEnum_result)
next
  show "distinct (OrderedSet (strings_in enum))" by (rule OrderedSet_distinct)
  show "set (OrderedSet (strings_in enum)) = {s. JStr s \<in> set enum}"
    by (simp add: OrderedSet_set strings_in_set)
  show "OrderedSet (x # xs) = x # filter (\<lambda>y. y \<noteq> x) (OrderedSet xs)"
    by (rule OrderedSet_Cons)
qed

theorem enum_conversion_witness:
  "convertToType (toType 0 []) [] [(''enum'', JArr [JStr ''a'', JStr ''b'', JNull, JStr ''a''])]
     (Ref_root ''a'') initial_state
   = Return (2, initial_state\<lparr>graph :=
         [EnumType [''a'', ''b''], PrimitiveType ''null'', UnionType (Some [0, 1])]\<rparr>)
   \<and> convertToType (toType 0 []) [] [(''enum'', JArr [JStr ''a'', JStr ''b''])]
     (Ref_root ''a'') initial_state
   = Return (0, initial_state\<lparr>graph := [EnumType [''a'', ''b'']]\<rparr>)
   \<and> convertToType (toType 0 []) [] [(''enum'', JArr [JStr ''a'', JNum 3])]
     (Ref_root ''a'') initial_state
   = Throw (Panic [Txt ''Non-string enum cases are not supported, at #''])"
proof -
  have ha: "field [(''enum'', JArr [JStr ''a'', JStr ''b'', JNull, JStr ''a''])] ''$ref'' = None
            \<and> field [(''enum'', JArr [JStr ''a'', JStr ''b'', JNull, JStr ''a''])] ''enum''
              = Some (JArr [JStr ''a'', JStr ''b'', JNull, JStr ''a''])"
    by (simp add: field_def)
  have a: "convertToType (toType 0 []) [] [(''enum'', JArr [JStr ''a'', JStr ''b'', JNull, JStr ''a''])]
     (Ref_root ''a'') initial_state
   = Return (2, initial_state\<lparr>graph :=
         [EnumType [''a'', ''b''], PrimitiveType ''null'', UnionType (Some [0, 1])]\<rparr>)"
    using enum_conversion [THEN conjunct1, rule_format, OF ha, of "toType 0 []" "[]"
        "Ref_root ''a''" initial_state]
    by (simp add: typeof_string_def initial_state_def OrderedSet_def numeral_2_eq_2)
  have hb: "field [(''enum'', JArr [JStr ''a'', JStr ''b''])] ''$ref'' = None
            \<and> field [(''enum'', JArr [JStr ''a'', JStr ''b''])] ''enum''
              = Some (JArr [JStr ''a'', JStr ''b''])"
    by (simp add: field_def)
  have b: "convertToType (toType 0 []) [] [(''enum'', JArr [JStr ''a'', JStr ''b''])]
     (Ref_root ''a'') initial_state
   = Return (0, initial_state\<lparr>graph := [EnumType [''a'', ''b'']]\<rparr>)"
    using enum_conversion [THEN conjunct1, rule_format, OF hb, of "toType 0 []" "[]"
        "Ref_root ''a''" initial_state]
    by (simp add: typeof_string_def initial_state_def OrderedSet_def)
  have hc: "field [(''enum'', JArr [JStr ''a'', JNum 3])] ''$ref'' = None
            \<and> field [(''enum'', JArr [JStr ''a'', JNum 3])] ''enum''
              = Some (JArr [JStr ''a'', JNum 3])"
    by (simp add: field_def)
  have c: "convertToType (toType 0 []) [] [(''enum'', JArr [JStr ''a'', JNum 3])]
     (Ref_root ''a'') initial_state
   = Throw (Panic [Txt ''Non-string enum cases are not supported, at #''])"
    using enum_conversion [THEN conjunct1, rule_format, OF hc, of "toType 0 []" "[]"
        "Ref_root ''a''" initial_state]
    by (simp add: typeof_string_def Ref_toString_def Ref_root_def elementToString_def)
  show ?thesis using a b c by blast
qed











section \<open>Failures\<close>
























section \<open>Objects\<close>




end
